theory Spec2Isabelle
  imports Main "HOL-Library.AList"
begin

section \<open>The runtime fetcher \<^verbatim>\<open>download_net_runtime.py\<close>\<close>

text \<open>
  The script keeps a cache of extracted .NET runtimes under \<^verbatim>\<open>Dependencies/dotnet\<close>:
  it reads the \<^verbatim>\<open>VERSION\<close> marker, wipes a stale cache, stamps the expected version, and
  for every requested platform whose directory is missing or empty downloads an archive
  and unpacks it.

  The embedding is shallow. The file system is a tree, every \<^verbatim>\<open>os\<close> call is a function on
  it that returns the exception it raises as a value, and the two functions of the script
  are state transformers over the file system and a trace of what the script did. What
  the network delivers and what the archives hold is not part of the script: it is the
  parameter \<open>env\<close> of every function that reaches them.
\<close>

subsection \<open>Exceptions\<close>

text \<open>
  The exception classes the script can meet. \<open>UnicodeError\<close> stands for its two
  subclasses, of decoding and of encoding, and \<open>OtherException\<close> for every other subclass
  of \<^verbatim>\<open>Exception\<close>. Interrupts (\<^verbatim>\<open>KeyboardInterrupt\<close>, \<^verbatim>\<open>SystemExit\<close>) are not
  modelled.
\<close>

datatype exn =
    KeyError
  | FileNotFoundError
  | NotADirectoryError
  | IsADirectoryError
  | FileExistsError
  | PermissionError
  | UnicodeError
  | URLError
  | TarError
  | BadZipFile
  | OtherException

subsection \<open>The file system\<close>

text \<open>
  A node is a regular file with its content or a directory with its entries, an
  association list from names to nodes (the first entry of a name is the one that counts).
  A path is the list of its components below the working directory, so
  \<^verbatim>\<open>os.path.join\<close> appends a component. A platform identifier is one component: the
  script joins it to the cache directory as it is, and the model does not look inside it
  for separators. Links and permissions are not modelled.
\<close>

datatype node = File string | Dir "(string \<times> node) list"

type_synonym path = "string list"

definition p :: "path \<Rightarrow> string \<Rightarrow> path" where
  "p dir name = dir @ [name]"

fun walk :: "node \<Rightarrow> path \<Rightarrow> exn + node" where
  "walk n [] = Inr n"
| "walk (File c) (x # xs) = Inl NotADirectoryError"
| "walk (Dir es) (x # xs) =
     (case map_of es x of None \<Rightarrow> Inl FileNotFoundError | Some n \<Rightarrow> walk n xs)"

text \<open>
  \<open>alter f path\<close> applies \<open>f\<close> to the entry that \<open>path\<close> names in its parent directory
  (\<open>None\<close> when there is no such entry) and stores the answer (\<open>None\<close> removes the entry).
  The parent must be a directory that exists.
\<close>

fun alter :: "(node option \<Rightarrow> exn + node option) \<Rightarrow> path \<Rightarrow> node \<Rightarrow> exn + node" where
  "alter f [] n = Inl OtherException"
| "alter f (x # xs) (File c) = Inl NotADirectoryError"
| "alter f [x] (Dir es) =
     (case f (map_of es x) of
        Inl e \<Rightarrow> Inl e
      | Inr None \<Rightarrow> Inr (Dir (AList.delete x es))
      | Inr (Some n) \<Rightarrow> Inr (Dir (AList.update x n es)))"
| "alter f (x # y # ys) (Dir es) =
     (case map_of es x of
        None \<Rightarrow> Inl FileNotFoundError
      | Some n \<Rightarrow>
          (case alter f (y # ys) n of
             Inl e \<Rightarrow> Inl e
           | Inr n' \<Rightarrow> Inr (Dir (AList.update x n' es))))"

definition os_path_exists :: "path \<Rightarrow> node \<Rightarrow> bool" where
  "os_path_exists path fs = (case walk fs path of Inl e \<Rightarrow> False | Inr n \<Rightarrow> True)"

definition os_path_isdir :: "path \<Rightarrow> node \<Rightarrow> bool" where
  "os_path_isdir path fs =
     (case walk fs path of Inl e \<Rightarrow> False | Inr (File c) \<Rightarrow> False | Inr (Dir es) \<Rightarrow> True)"

definition os_listdir :: "path \<Rightarrow> node \<Rightarrow> exn + string list" where
  "os_listdir path fs =
     (case walk fs path of
        Inl e \<Rightarrow> Inl e
      | Inr (File c) \<Rightarrow> Inl NotADirectoryError
      | Inr (Dir es) \<Rightarrow> Inr (map fst es))"

definition read_file :: "path \<Rightarrow> node \<Rightarrow> exn + string" where
  "read_file path fs =
     (case walk fs path of
        Inl e \<Rightarrow> Inl e
      | Inr (File c) \<Rightarrow> Inr c
      | Inr (Dir es) \<Rightarrow> Inl IsADirectoryError)"

definition write_file :: "path \<Rightarrow> string \<Rightarrow> node \<Rightarrow> exn + node" where
  "write_file path c =
     alter (\<lambda>old. case old of
                    Some (Dir es) \<Rightarrow> Inl IsADirectoryError
                  | _ \<Rightarrow> Inr (Some (File c))) path"

definition os_mkdir :: "path \<Rightarrow> node \<Rightarrow> exn + node" where
  "os_mkdir =
     alter (\<lambda>old. case old of
                    None \<Rightarrow> Inr (Some (Dir []))
                  | Some n \<Rightarrow> Inl FileExistsError)"

definition os_remove :: "path \<Rightarrow> node \<Rightarrow> exn + node" where
  "os_remove =
     alter (\<lambda>old. case old of
                    None \<Rightarrow> Inl FileNotFoundError
                  | Some (File c) \<Rightarrow> Inr None
                  | Some (Dir es) \<Rightarrow> Inl IsADirectoryError)"

definition shutil_rmtree :: "path \<Rightarrow> node \<Rightarrow> exn + node" where
  "shutil_rmtree =
     alter (\<lambda>old. case old of
                    None \<Rightarrow> Inl FileNotFoundError
                  | Some (File c) \<Rightarrow> Inl NotADirectoryError
                  | Some (Dir es) \<Rightarrow> Inr None)"

text \<open>
  \<^verbatim>\<open>os.makedirs(name, exist_ok=True)\<close>, on the path with its last component first: the
  parent is made first when it does not exist (a \<^verbatim>\<open>FileExistsError\<close> from there is
  passed over), then the directory itself, and an error of that \<^verbatim>\<open>mkdir\<close> is passed over
  when the directory is there.
\<close>

fun makedirs_rev :: "path \<Rightarrow> node \<Rightarrow> exn + node" where
  "makedirs_rev [] fs = Inr fs"
| "makedirs_rev (tail # head) fs =
     (case (if head \<noteq> [] \<and> \<not> os_path_exists (rev head) fs
            then (case makedirs_rev head fs of Inl FileExistsError \<Rightarrow> Inr fs | r \<Rightarrow> r)
            else Inr fs) of
        Inl e \<Rightarrow> Inl e
      | Inr fs1 \<Rightarrow>
          (case os_mkdir (rev (tail # head)) fs1 of
             Inl e \<Rightarrow> if os_path_isdir (rev (tail # head)) fs1 then Inr fs1 else Inl e
           | Inr fs2 \<Rightarrow> Inr fs2))"

definition os_makedirs :: "path \<Rightarrow> node \<Rightarrow> exn + node" where
  "os_makedirs path = makedirs_rev (rev path)"

text \<open>\<open>graft path n\<close> puts \<open>n\<close> in the place of the node at \<open>path\<close>, when there is one.\<close>

fun graft :: "path \<Rightarrow> node \<Rightarrow> node \<Rightarrow> node" where
  "graft [] n fs = n"
| "graft (x # xs) n (File c) = File c"
| "graft (x # xs) n (Dir es) =
     (case map_of es x of
        None \<Rightarrow> Dir es
      | Some m \<Rightarrow> Dir (AList.update x (graft xs n m) es))"

subsection \<open>Python strings\<close>

text \<open>
  The text that line 46 reads from \<^verbatim>\<open>VERSION\<close> is a list of Unicode code points.
  \<open>isspace\<close> holds of the code points that \<^verbatim>\<open>str.isspace()\<close> holds of: the ASCII white
  space and the separators U+001C to U+001F, U+0085, U+00A0, U+1680, U+2000 to U+200A,
  U+2028, U+2029, U+202F, U+205F and U+3000. \<open>strip\<close> is \<^verbatim>\<open>str.strip()\<close>: it removes them
  at both ends. \<open>text_of\<close> is the text of an ASCII string of the script.
\<close>

type_synonym str = "nat list"

definition text_of :: "string \<Rightarrow> str" where
  "text_of s = map of_char s"

definition isspace :: "nat \<Rightarrow> bool" where
  "isspace c =
     (c \<in> {9, 10, 11, 12, 13, 28, 29, 30, 31, 32, 133, 160, 5760, 8232, 8233, 8239, 8287, 12288} \<or>
      (8192 \<le> c \<and> c \<le> 8202))"

definition strip :: "str \<Rightarrow> str" where
  "strip s = rev (dropWhile isspace (rev (dropWhile isspace s)))"

text \<open>
  The other strings are lists of 8-bit characters. \<open>lower\<close> maps \<^verbatim>\<open>A\<close>..\<^verbatim>\<open>Z\<close> to
  \<^verbatim>\<open>a\<close>..\<^verbatim>\<open>z\<close>, \<open>contains sub s\<close> is \<^verbatim>\<open>sub in s\<close> and \<open>endswith s suffix\<close> is
  \<^verbatim>\<open>s.endswith(suffix)\<close>.
\<close>

definition char_lower :: "char \<Rightarrow> char" where
  "char_lower c =
     (if (65::nat) \<le> of_char c \<and> (of_char c :: nat) \<le> 90
      then char_of ((of_char c :: nat) + 32) else c)"

definition lower :: "string \<Rightarrow> string" where
  "lower s = map char_lower s"

fun contains :: "string \<Rightarrow> string \<Rightarrow> bool" where
  "contains sub [] = (sub = [])"
| "contains sub (c # cs) = (take (length sub) (c # cs) = sub \<or> contains sub cs)"

definition endswith :: "string \<Rightarrow> string \<Rightarrow> bool" where
  "endswith s suffix =
     (length suffix \<le> length s \<and> drop (length s - length suffix) s = suffix)"

subsection \<open>State, trace and exceptions\<close>

text \<open>
  The trace records, in order, the calls that reach the network or an archive and, of the
  lines the script prints, those that tell which branch ran: the warning, the errors, the
  skip and the completion lines. The lines that only report progress are left out, and
  printing a line made of the script's own text, its arguments and its paths is taken not
  to raise. The two lines that print what was read from a file may raise: line 50, with the
  text of \<^verbatim>\<open>VERSION\<close>, and line 123, with the preview of what came from the network,
  which stands inside the bare \<^verbatim>\<open>except\<close> and is kept in the trace.
\<close>

datatype line =
    ClearingOutdatedCache
  | NoPlatformsSpecified
  | SkippingDownload string nat
  | ProcessComplete
  | Downloading string
  | FileNotCreated
  | HtmlInsteadOfRuntime
  | ContentPreview string
  | ExtractedTarGz
  | ExtractedZip
  | UnknownFileFormat string
  | DownloadComplete string
  | NetworkError string
  | TarFailed
  | ZipFailed
  | UnexpectedError exn

datatype event =
    Urlretrieve string path
  | TarExtractall path path
  | ZipExtractall path path
  | Print line

record state =
  files :: node
  trace :: "event list"

text \<open>
  A statement of the script takes the state and gives the state it leaves, with the value
  it returns (\<open>Inr\<close>) or the exception it raises (\<open>Inl\<close>). What was done before a raise
  stays done.
\<close>

type_synonym 'a io = "state \<Rightarrow> (exn + 'a) \<times> state"

definition io_return :: "'a \<Rightarrow> 'a io" where
  "io_return x s = (Inr x, s)"

definition io_raise :: "exn \<Rightarrow> 'a io" where
  "io_raise e s = (Inl e, s)"

definition io_bind :: "'a io \<Rightarrow> ('a \<Rightarrow> 'b io) \<Rightarrow> 'b io" where
  "io_bind m f s = (case m s of (Inl e, s') \<Rightarrow> (Inl e, s') | (Inr x, s') \<Rightarrow> f x s')"

definition io_try :: "'a io \<Rightarrow> (exn \<Rightarrow> 'a io) \<Rightarrow> 'a io" where
  "io_try m handler s = (case m s of (Inl e, s') \<Rightarrow> handler e s' | (Inr x, s') \<Rightarrow> (Inr x, s'))"

definition io_get :: "(node \<Rightarrow> 'a) \<Rightarrow> 'a io" where
  "io_get f s = (Inr (f (files s)), s)"

definition io_query :: "(node \<Rightarrow> exn + 'a) \<Rightarrow> 'a io" where
  "io_query f s = (f (files s), s)"

definition io_update :: "(node \<Rightarrow> exn + node) \<Rightarrow> unit io" where
  "io_update f s =
     (case f (files s) of Inl e \<Rightarrow> (Inl e, s) | Inr fs \<Rightarrow> (Inr (), s\<lparr>files := fs\<rparr>))"

definition emit :: "event \<Rightarrow> unit io" where
  "emit ev s = (Inr (), s\<lparr>trace := trace s @ [ev]\<rparr>)"

subsection \<open>The network and the archives\<close>

text \<open>
  What the script cannot decide. \<open>urlretrieve_result\<close> is what a fetch of a URL does,
  given the trace so far (so two fetches of one URL may differ): it saves a body, or it
  raises, with or without a partial body written. \<open>read_text\<close> is the text that
  \<^verbatim>\<open>open(path, "r").read()\<close> gives for the bytes of a file, or the exception it raises
  (a \<^verbatim>\<open>UnicodeDecodeError\<close> for bytes that are not valid in the encoding of the locale).
  \<open>decoded\<close> is the text that reading a
  file's bytes with \<^verbatim>\<open>errors='ignore'\<close> gives, or the exception of that read.
  \<open>version_print\<close> and \<open>preview_print\<close> are the exceptions that printing the text of
  \<^verbatim>\<open>VERSION\<close> and the preview of a downloaded text raise, if any
  (a \<^verbatim>\<open>UnicodeEncodeError\<close> where the output cannot encode them), and \<open>remove_while_open\<close>
  the exception that \<^verbatim>\<open>os.remove\<close> raises for a file that the process still holds open,
  if any (none on POSIX, a \<^verbatim>\<open>PermissionError\<close> on Windows).
  \<open>tar_members\<close> and \<open>zip_members\<close> give, for the bytes of an archive, the top-level
  entries that extraction writes, in order, and the exception it ends with, if any.
  \<open>dir_size\<close> is what \<^verbatim>\<open>os.path.getsize\<close> reports for a directory.
\<close>

datatype fetched = Saved string | Failed "string option" exn

record env =
  urlretrieve_result :: "event list \<Rightarrow> string \<Rightarrow> fetched"
  read_text :: "string \<Rightarrow> exn + str"
  version_print :: "str \<Rightarrow> exn option"
  decoded :: "string \<Rightarrow> exn + string"
  preview_print :: "string \<Rightarrow> exn option"
  remove_while_open :: "exn option"
  tar_members :: "string \<Rightarrow> (string \<times> node) list \<times> exn option"
  zip_members :: "string \<Rightarrow> (string \<times> node) list \<times> exn option"
  dir_size :: nat

definition urlretrieve :: "env \<Rightarrow> string \<Rightarrow> path \<Rightarrow> unit io" where
  "urlretrieve env url filename s =
     (let s1 = s\<lparr>trace := trace s @ [Urlretrieve url filename]\<rparr> in
      case urlretrieve_result env (trace s) url of
        Saved c \<Rightarrow> io_update (write_file filename c) s1
      | Failed None e \<Rightarrow> (Inl e, s1)
      | Failed (Some c) e \<Rightarrow>
          (case io_update (write_file filename c) s1 of
             (Inl e', s2) \<Rightarrow> (Inl e', s2)
           | (Inr u, s2) \<Rightarrow> (Inl e, s2)))"

definition os_path_getsize :: "env \<Rightarrow> path \<Rightarrow> node \<Rightarrow> exn + nat" where
  "os_path_getsize env path fs =
     (case walk fs path of
        Inl e \<Rightarrow> Inl e
      | Inr (File c) \<Rightarrow> Inr (length c)
      | Inr (Dir es) \<Rightarrow> Inr (dir_size env))"

definition read_as_text :: "env \<Rightarrow> path \<Rightarrow> node \<Rightarrow> exn + str" where
  "read_as_text env path fs =
     (case read_file path fs of Inl e \<Rightarrow> Inl e | Inr bytes \<Rightarrow> read_text env bytes)"

definition read_ignoring_errors :: "env \<Rightarrow> path \<Rightarrow> node \<Rightarrow> exn + string" where
  "read_ignoring_errors env path fs =
     (case read_file path fs of Inl e \<Rightarrow> Inl e | Inr bytes \<Rightarrow> decoded env bytes)"

text \<open>
  Extraction writes the entries of the archive into the directory one after the other and
  stops at the first that fails. As \<^verbatim>\<open>tarfile\<close> and \<^verbatim>\<open>zipfile\<close> do, it refuses to put a
  directory where a regular file is, and a file where a directory is; an entry replaces an
  older one of its name and kind.
\<close>

fun put_member :: "string \<times> node \<Rightarrow> (string \<times> node) list \<Rightarrow> exn + (string \<times> node) list" where
  "put_member (name, File c) es =
     (case map_of es name of
        Some (Dir sub) \<Rightarrow> Inl IsADirectoryError
      | _ \<Rightarrow> Inr (AList.update name (File c) es))"
| "put_member (name, Dir sub) es =
     (case map_of es name of
        Some (File c) \<Rightarrow> Inl FileExistsError
      | _ \<Rightarrow> Inr (AList.update name (Dir sub) es))"

fun put_members ::
  "(string \<times> node) list \<Rightarrow> (string \<times> node) list \<Rightarrow> exn option \<times> (string \<times> node) list" where
  "put_members [] es = (None, es)"
| "put_members (m # ms) es =
     (case put_member m es of
        Inl e \<Rightarrow> (Some e, es)
      | Inr es' \<Rightarrow> put_members ms es')"

definition extractall :: "(string \<times> node) list \<times> exn option \<Rightarrow> path \<Rightarrow> unit io" where
  "extractall archive dir s =
     (case walk (files s) dir of
        Inl e \<Rightarrow> (Inl e, s)
      | Inr (File c) \<Rightarrow> (Inl NotADirectoryError, s)
      | Inr (Dir es) \<Rightarrow>
          (case put_members (fst archive) es of
             (failed, es') \<Rightarrow>
               (let s' = s\<lparr>files := graft dir (Dir es') (files s)\<rparr> in
                case failed of
                  Some e \<Rightarrow> (Inl e, s')
                | None \<Rightarrow>
                    (case snd archive of
                       Some e \<Rightarrow> (Inl e, s')
                     | None \<Rightarrow> (Inr (), s')))))"

definition tar_extractall :: "env \<Rightarrow> path \<Rightarrow> path \<Rightarrow> unit io" where
  "tar_extractall env download_file dir =
     io_bind (io_query (read_file download_file)) (\<lambda>bytes.
     io_bind (emit (TarExtractall download_file dir)) (\<lambda>u.
     extractall (tar_members env bytes) dir))"

definition zip_extractall :: "env \<Rightarrow> path \<Rightarrow> path \<Rightarrow> unit io" where
  "zip_extractall env download_file dir =
     io_bind (io_query (read_file download_file)) (\<lambda>bytes.
     io_bind (emit (ZipExtractall download_file dir)) (\<lambda>u.
     extractall (zip_members env bytes) dir))"

subsection \<open>The script\<close>

text \<open>The constants of the script. The table of downloads is an association list.\<close>

definition PLATFORM_WINDOWS :: string where
  "PLATFORM_WINDOWS = ''windows''"

definition PLATFORM_LINUX :: string where
  "PLATFORM_LINUX = ''linux''"

definition PLATFORM_MACOS :: string where
  "PLATFORM_MACOS = ''mac''"

definition DOTNET_RUNTIME_VERSION :: string where
  "DOTNET_RUNTIME_VERSION = ''10.0.0''"

definition DOTNET_RUNTIME_DOWNLOADS :: "(string \<times> string) list" where
  "DOTNET_RUNTIME_DOWNLOADS =
     [(PLATFORM_LINUX,
       ''https://builds.dotnet.microsoft.com/dotnet/Runtime/10.0.0/dotnet-runtime-10.0.0-linux-x64.tar.gz''),
      (PLATFORM_WINDOWS,
       ''https://builds.dotnet.microsoft.com/dotnet/Runtime/10.0.0/dotnet-runtime-10.0.0-win-x64.zip''),
      (PLATFORM_MACOS,
       ''https://builds.dotnet.microsoft.com/dotnet/Runtime/10.0.0/dotnet-runtime-10.0.0-osx-x64.tar.gz'')]"

definition runtime_cache :: path where
  "runtime_cache = [''Dependencies'', ''dotnet'']"

definition version_file_path :: path where
  "version_file_path = p runtime_cache ''VERSION''"

text \<open>
  \<^verbatim>\<open>download_platform_runtime\<close>, lines 97 to 164. The functions take the table of downloads
  as the parameter \<open>downloads\<close>; the script runs them on \<open>DOTNET_RUNTIME_DOWNLOADS\<close>.

  Lines 118 to 127, the look into a small file: the value says whether the function
  returns there. The bare \<^verbatim>\<open>except\<close> passes over every exception of the block: of the
  read, of the print of the preview (line 123) and of the removal (line 124), which
  happens inside the \<^verbatim>\<open>with\<close> of line 119, while the file is open.
\<close>

definition print_preview :: "env \<Rightarrow> string \<Rightarrow> unit io" where
  "print_preview env content =
     (case preview_print env (take 300 content) of
        Some e \<Rightarrow> io_raise e
      | None \<Rightarrow> emit (Print (ContentPreview (take 300 content))))"

definition os_remove_open :: "env \<Rightarrow> path \<Rightarrow> unit io" where
  "os_remove_open env path =
     (case remove_while_open env of
        Some e \<Rightarrow> io_raise e
      | None \<Rightarrow> io_update (os_remove path))"

definition html_check :: "env \<Rightarrow> path \<Rightarrow> bool io" where
  "html_check env download_file =
     io_try
       (io_bind (io_query (read_ignoring_errors env download_file)) (\<lambda>content.
        if contains ''html'' (lower content) \<or> contains ''<!doctype'' (lower content)
        then io_bind (emit (Print HtmlInsteadOfRuntime)) (\<lambda>u.
             io_bind (print_preview env content) (\<lambda>u.
             io_bind (os_remove_open env download_file) (\<lambda>u.
             io_return True)))
        else io_return False))
       (\<lambda>e. io_return False)"

text \<open>Lines 103 to 146, the block under \<^verbatim>\<open>try\<close>.\<close>

definition download_attempt :: "env \<Rightarrow> string \<Rightarrow> path \<Rightarrow> string \<Rightarrow> unit io" where
  "download_attempt env download_url dir platform =
     (let download_file = p dir ''download.tmp'' in
      io_bind (urlretrieve env download_url download_file) (\<lambda>u.
      io_bind (io_get (os_path_exists download_file)) (\<lambda>created.
      if \<not> created then emit (Print FileNotCreated)
      else
        io_bind (io_query (os_path_getsize env download_file)) (\<lambda>file_size.
        io_bind (if file_size < 10240 then html_check env download_file
                 else io_return False) (\<lambda>returned.
        if returned then io_return ()
        else if endswith download_url ''.tar.gz'' then
          io_bind (tar_extractall env download_file dir) (\<lambda>u.
          io_bind (emit (Print ExtractedTarGz)) (\<lambda>u.
          io_bind (io_update (os_remove download_file)) (\<lambda>u.
          emit (Print (DownloadComplete platform)))))
        else if endswith download_url ''.zip'' then
          io_bind (zip_extractall env download_file dir) (\<lambda>u.
          io_bind (emit (Print ExtractedZip)) (\<lambda>u.
          io_bind (io_update (os_remove download_file)) (\<lambda>u.
          emit (Print (DownloadComplete platform)))))
        else
          io_bind (emit (Print (UnknownFileFormat download_url))) (\<lambda>u.
          io_update (os_remove download_file)))))))"

text \<open>Lines 148 to 164, the four handlers: each prints its line and removes the file if it is there.\<close>

definition remove_if_exists :: "path \<Rightarrow> unit io" where
  "remove_if_exists download_file =
     io_bind (io_get (os_path_exists download_file)) (\<lambda>there.
     if there then io_update (os_remove download_file) else io_return ())"

definition download_handler :: "string \<Rightarrow> path \<Rightarrow> exn \<Rightarrow> unit io" where
  "download_handler download_url download_file e =
     (case e of
        URLError \<Rightarrow>
          io_bind (emit (Print (NetworkError download_url))) (\<lambda>u. remove_if_exists download_file)
      | TarError \<Rightarrow>
          io_bind (emit (Print TarFailed)) (\<lambda>u. remove_if_exists download_file)
      | BadZipFile \<Rightarrow>
          io_bind (emit (Print ZipFailed)) (\<lambda>u. remove_if_exists download_file)
      | _ \<Rightarrow>
          io_bind (emit (Print (UnexpectedError e))) (\<lambda>u. remove_if_exists download_file))"

definition download_platform_runtime ::
  "(string \<times> string) list \<Rightarrow> env \<Rightarrow> path \<Rightarrow> string \<Rightarrow> unit io" where
  "download_platform_runtime downloads env dir platform =
     io_bind (emit (Print (Downloading platform))) (\<lambda>u.
     case map_of downloads platform of
       None \<Rightarrow> io_raise KeyError
     | Some download_url \<Rightarrow>
         io_try (download_attempt env download_url dir platform)
                (download_handler download_url (p dir ''download.tmp'')))"

text \<open>
  \<^verbatim>\<open>update_netcore_runtime\<close>, lines 34 to 94. Lines 44 to 63 are \<open>version_bookkeeping\<close>,
  the body of the loop of lines 70 to 92 is \<open>process_platform\<close> and the loop is
  \<open>process_platforms\<close>. Lines 44 to 49 are \<open>read_current_version\<close>: of the exceptions of
  the read, \<^verbatim>\<open>FileNotFoundError\<close> alone is caught. Line 50 is \<open>print_current_version\<close>.
\<close>

definition read_current_version :: "env \<Rightarrow> str option io" where
  "read_current_version env =
     io_try (io_bind (io_query (read_as_text env version_file_path)) (\<lambda>content.
             io_return (Some (strip content))))
            (\<lambda>e. if e = FileNotFoundError then io_return None else io_raise e)"

definition print_current_version :: "env \<Rightarrow> str option \<Rightarrow> unit io" where
  "print_current_version env current_version =
     (case current_version of
        None \<Rightarrow> io_return ()
      | Some version \<Rightarrow>
          (case version_print env version of
             Some e \<Rightarrow> io_raise e
           | None \<Rightarrow> io_return ()))"

definition version_bookkeeping :: "env \<Rightarrow> unit io" where
  "version_bookkeeping env =
     io_bind (read_current_version env) (\<lambda>current_version.
     io_bind (print_current_version env current_version) (\<lambda>u.
     io_bind (io_get (os_path_exists runtime_cache)) (\<lambda>cached.
     io_bind (if current_version \<noteq> Some (text_of DOTNET_RUNTIME_VERSION) \<and> cached
              then io_bind (emit (Print ClearingOutdatedCache)) (\<lambda>u.
                   io_update (shutil_rmtree runtime_cache))
              else io_return ()) (\<lambda>u.
     io_bind (io_update (os_makedirs runtime_cache)) (\<lambda>u.
     io_update (write_file version_file_path DOTNET_RUNTIME_VERSION))))))"

definition process_platform :: "(string \<times> string) list \<Rightarrow> env \<Rightarrow> string \<Rightarrow> unit io" where
  "process_platform downloads env platform =
     (let platform_runtime_cache = p runtime_cache platform in
      io_bind (io_get (os_path_exists platform_runtime_cache)) (\<lambda>there.
      io_bind (if \<not> there then io_return True
               else io_bind (io_query (os_listdir platform_runtime_cache)) (\<lambda>contents.
                    if contents = [] then io_return True
                    else io_bind (emit (Print (SkippingDownload platform (length contents)))) (\<lambda>u.
                         io_return False))) (\<lambda>needs_download.
      if needs_download then
        io_bind (io_get (os_path_exists platform_runtime_cache)) (\<lambda>there.
        io_bind (if \<not> there then io_update (os_mkdir platform_runtime_cache)
                 else io_return ()) (\<lambda>u.
        download_platform_runtime downloads env platform_runtime_cache platform))
      else io_return ())))"

fun process_platforms :: "(string \<times> string) list \<Rightarrow> env \<Rightarrow> string list \<Rightarrow> unit io" where
  "process_platforms downloads env [] = io_return ()"
| "process_platforms downloads env (platform # platforms) =
     io_bind (process_platform downloads env platform) (\<lambda>u.
     process_platforms downloads env platforms)"

definition update_netcore_runtime ::
  "(string \<times> string) list \<Rightarrow> env \<Rightarrow> string list \<Rightarrow> unit io" where
  "update_netcore_runtime downloads env platforms =
     io_bind (version_bookkeeping env) (\<lambda>u.
     if platforms = [] then emit (Print NoPlatformsSpecified)
     else io_bind (process_platforms downloads env platforms) (\<lambda>u.
          emit (Print ProcessComplete)))"

text \<open>\<^verbatim>\<open>main\<close>, lines 26 to 31: the script is run on all arguments but the first.\<close>

definition main :: "env \<Rightarrow> string list \<Rightarrow> unit io" where
  "main env argv = update_netcore_runtime DOTNET_RUNTIME_DOWNLOADS env (tl argv)"

subsection \<open>What the properties speak of\<close>

text \<open>
  The cache root is usable when reading \<^verbatim>\<open>VERSION\<close> as text finds no file, or gives a
  text that line 50 can print. Any other failure of that read (the cache root or
  \<^verbatim>\<open>Dependencies\<close> is a regular file, \<^verbatim>\<open>VERSION\<close> is a directory, its bytes cannot be
  decoded) leaves \<^verbatim>\<open>update_netcore_runtime\<close> at lines 45 and 46, and a failure of the
  print leaves it at line 50.
\<close>

definition cache_usable :: "env \<Rightarrow> node \<Rightarrow> bool" where
  "cache_usable env fs =
     (case read_as_text env version_file_path fs of
        Inl e \<Rightarrow> e = FileNotFoundError
      | Inr content \<Rightarrow> version_print env (strip content) = None)"

text \<open>
  The test of line 121 on the bytes of a file: the text they decode to holds one of the
  two marks. A read that raises finds nothing.
\<close>

definition looks_like_html :: "env \<Rightarrow> string \<Rightarrow> bool" where
  "looks_like_html env bytes =
     (case decoded env bytes of
        Inl e \<Rightarrow> False
      | Inr content \<Rightarrow>
          contains ''html'' (lower content) \<or> contains ''<!doctype'' (lower content))"

text \<open>
  A page is discarded when the test holds and neither the print of its preview nor the
  removal of the open file raises: then line 125 is reached. \<open>peek_lines\<close> are the lines
  that the peek prints for the bytes of a file, and \<open>peeked\<close> those that lines 117 to 127
  print for them: none for a file of 10240 bytes or more.
\<close>

definition page_discarded :: "env \<Rightarrow> string \<Rightarrow> bool" where
  "page_discarded env bytes =
     (case decoded env bytes of
        Inl e \<Rightarrow> False
      | Inr content \<Rightarrow>
          (contains ''html'' (lower content) \<or> contains ''<!doctype'' (lower content)) \<and>
          preview_print env (take 300 content) = None \<and>
          remove_while_open env = None)"

definition peek_lines :: "env \<Rightarrow> string \<Rightarrow> event list" where
  "peek_lines env bytes =
     (case decoded env bytes of
        Inl e \<Rightarrow> []
      | Inr content \<Rightarrow>
          if contains ''html'' (lower content) \<or> contains ''<!doctype'' (lower content)
          then Print HtmlInsteadOfRuntime #
               (case preview_print env (take 300 content) of
                  Some e \<Rightarrow> []
                | None \<Rightarrow> [Print (ContentPreview (take 300 content))])
          else [])"

definition peeked :: "env \<Rightarrow> string \<Rightarrow> event list" where
  "peeked env bytes = (if length bytes < 10240 then peek_lines env bytes else [])"

text \<open>
  What extracting an archive into a directory with the entries \<open>es\<close> leaves there, and
  the exception it ends with: that of the first entry that cannot be written, else that
  of the archive itself.
\<close>

definition extracted ::
  "(string \<times> node) list \<times> exn option \<Rightarrow> (string \<times> node) list \<Rightarrow> (string \<times> node) list" where
  "extracted archive es = snd (put_members (fst archive) es)"

definition extraction_error ::
  "(string \<times> node) list \<times> exn option \<Rightarrow> (string \<times> node) list \<Rightarrow> exn option" where
  "extraction_error archive es =
     (case fst (put_members (fst archive) es) of Some e \<Rightarrow> Some e | None \<Rightarrow> snd archive)"

text \<open>The line that the handler of an exception prints (lines 149, 154, 158 and 162).\<close>

definition failure_line :: "string \<Rightarrow> exn \<Rightarrow> line" where
  "failure_line download_url e =
     (case e of
        URLError \<Rightarrow> NetworkError download_url
      | TarError \<Rightarrow> TarFailed
      | BadZipFile \<Rightarrow> ZipFailed
      | _ \<Rightarrow> UnexpectedError e)"

text \<open>
  The lines after the call of an extraction: the two of success, or the one of the
  handler. \<open>unpacked\<close> is the result of lines 132 to 146 for one kind of archive, on a
  directory with the entries \<open>es\<close>.
\<close>

definition unpack_lines ::
  "line \<Rightarrow> (string \<times> node) list \<times> exn option \<Rightarrow> string \<Rightarrow> string \<Rightarrow>
   (string \<times> node) list \<Rightarrow> event list" where
  "unpack_lines done archive url platform es =
     (case extraction_error archive es of
        None \<Rightarrow> [Print done, Print (DownloadComplete platform)]
      | Some e \<Rightarrow> [Print (failure_line url e)])"

definition unpacked ::
  "event \<Rightarrow> line \<Rightarrow> (string \<times> node) list \<times> exn option \<Rightarrow> path \<Rightarrow> string \<Rightarrow>
   (string \<times> node) list \<Rightarrow> state \<Rightarrow> (exn + unit) \<times> state" where
  "unpacked call done archive dir platform es s =
     (case extraction_error archive es of
        Some e \<Rightarrow>
          (Inl e, s\<lparr>files := graft dir (Dir (extracted archive es)) (files s),
                     trace := trace s @ [call]\<rparr>)
      | None \<Rightarrow>
          (Inr (), s\<lparr>files := graft dir
                        (Dir (AList.delete ''download.tmp'' (extracted archive es))) (files s),
                      trace := trace s @ [call, Print done, Print (DownloadComplete platform)]\<rparr>))"

text \<open>
  The state after lines 90 and 91 for a platform: its directory is made if it was not
  there.
\<close>

definition platform_directory_made :: "string \<Rightarrow> state \<Rightarrow> state" where
  "platform_directory_made platform s =
     (if os_path_exists (p runtime_cache platform) (files s) then s
      else (case os_mkdir (p runtime_cache platform) (files s) of
              Inl e \<Rightarrow> s
            | Inr fs \<Rightarrow> s\<lparr>files := fs\<rparr>))"

text \<open>
  The fetches of a trace are its calls of \<^verbatim>\<open>urlretrieve\<close>; a platform is fetched in a trace
  when the trace holds the call for its URL and its temporary file.
\<close>

fun is_fetch :: "event \<Rightarrow> bool" where
  "is_fetch (Urlretrieve url file) = True"
| "is_fetch ev = False"

definition fetches :: "event list \<Rightarrow> event list" where
  "fetches t = filter is_fetch t"

definition fetched :: "(string \<times> string) list \<Rightarrow> event list \<Rightarrow> string \<Rightarrow> bool" where
  "fetched downloads t platform =
     (case map_of downloads platform of
        None \<Rightarrow> False
      | Some url \<Rightarrow> Urlretrieve url (p (p runtime_cache platform) ''download.tmp'') \<in> set t)"

text \<open>
  A platform is populated when its directory under the cache root can be listed and is not
  empty: the test of lines 77 to 87.
\<close>

definition populated :: "string \<Rightarrow> node \<Rightarrow> bool" where
  "populated platform fs =
     (case os_listdir (p runtime_cache platform) fs of
        Inl e \<Rightarrow> False
      | Inr contents \<Rightarrow> contents \<noteq> [])"

text \<open>
  The cache is stale when the cache root is a directory and \<^verbatim>\<open>VERSION\<close> is missing or
  holds, stripped, another version than the expected one: the condition of line 54.
\<close>

definition stale :: "env \<Rightarrow> node \<Rightarrow> bool" where
  "stale env fs =
     (os_path_isdir runtime_cache fs \<and>
      (case read_as_text env version_file_path fs of
         Inl e \<Rightarrow> e = FileNotFoundError
       | Inr content \<Rightarrow> strip content \<noteq> text_of DOTNET_RUNTIME_VERSION))"

subsection \<open>Examples\<close>

text \<open>
  A network that answers every URL with a small archive, archives that hold one file, and
  a network that answers with an error page, which is no archive; a cache stamped with the
  expected version whose platform directories are empty.
\<close>

definition example_env :: env where
  "example_env =
     \<lparr>urlretrieve_result = (\<lambda>history url. Saved ''archive''),
      read_text = (\<lambda>bytes. Inr (text_of bytes)),
      version_print = (\<lambda>version. None),
      decoded = (\<lambda>bytes. Inr bytes),
      preview_print = (\<lambda>content. None),
      remove_while_open = None,
      tar_members = (\<lambda>bytes. ([(''dotnet'', File ''elf'')], None)),
      zip_members = (\<lambda>bytes. ([(''dotnet.exe'', File ''mz'')], None)),
      dir_size = 4096\<rparr>"

definition html_env :: env where
  "html_env =
     example_env\<lparr>urlretrieve_result := (\<lambda>history url. Saved ''<!DOCTYPE HTML>''),
       tar_members := (\<lambda>bytes. ([], Some TarError)),
       zip_members := (\<lambda>bytes. ([], Some BadZipFile))\<rparr>"

definition fresh_cache :: state where
  "fresh_cache =
     \<lparr>files = Dir [(''Dependencies'', Dir [(''dotnet'',
         Dir [(''VERSION'', File ''10.0.0''), (''linux'', Dir []), (''windows'', Dir [])])])],
      trace = []\<rparr>"

text \<open>
  A network that is down; one whose first fetch breaks off after four bytes and whose later
  fetches succeed; and files whose bytes cannot be read as text.
\<close>

definition offline_env :: env where
  "offline_env = example_env\<lparr>urlretrieve_result := (\<lambda>history url. Failed None URLError)\<rparr>"


definition undecodable_env :: env where
  "undecodable_env = example_env\<lparr>decoded := (\<lambda>bytes. Inl OtherException)\<rparr>"

text \<open>
  With the network of the error page: a host where a file that is open cannot be removed,
  and an output that cannot encode the preview.
\<close>

definition windows_html_env :: env where
  "windows_html_env = html_env\<lparr>remove_while_open := Some PermissionError\<rparr>"

definition narrow_output_env :: env where
  "narrow_output_env = html_env\<lparr>preview_print := (\<lambda>content. Some UnicodeError)\<rparr>"

text \<open>
  A cache of an older version that holds a runtime for \<^verbatim>\<open>linux\<close>, and a cache whose
  \<^verbatim>\<open>VERSION\<close> holds the expected version followed by a no-break space and a line feed.
\<close>

definition stale_cache :: state where
  "stale_cache =
     \<lparr>files = Dir [(''Dependencies'', Dir [(''dotnet'',
         Dir [(''VERSION'', File ''9.0.0''), (''linux'', Dir [(''dotnet'', File ''old'')])])])],
      trace = []\<rparr>"

definition padded_cache :: state where
  "padded_cache =
     \<lparr>files = Dir [(''Dependencies'', Dir [(''dotnet'',
         Dir [(''VERSION'', File (''10.0.0'' @ [char_of (160 :: nat), char_of (10 :: nat)])),
              (''linux'', Dir [(''dotnet'', File ''elf'')])])])],
      trace = []\<rparr>"

section \<open>Properties\<close>

subsection \<open>The file system\<close>

lemmas io_defs = io_return_def io_raise_def io_bind_def io_try_def io_get_def io_query_def
  io_update_def emit_def

lemma walk_append:
  "walk fs (d @ q) = (case walk fs d of Inl e \<Rightarrow> Inl e | Inr n \<Rightarrow> walk n q)"
proof (induction fs d rule: walk.induct)
  case (1 n)
  then show ?case by simp
next
  case (2 c x xs)
  then show ?case by simp
next
  case (3 es x xs)
  then show ?case by (simp split: option.splits)
qed

lemma walk_graft:
  "walk fs d = Inr n \<Longrightarrow> walk (graft d m fs) (d @ q) = walk m q"
proof (induction d arbitrary: fs)
  case Nil
  then show ?case by simp
next
  case (Cons x xs)
  then show ?case
    by (cases fs) (auto simp: update_conv' split: option.splits)
qed

lemma walk_graft_here: "walk fs d = Inr n \<Longrightarrow> walk (graft d m fs) d = Inr m"
  using walk_graft [of fs d n m "[]"] by simp

lemma graft_graft: "graft d m2 (graft d m1 fs) = graft d m2 fs"
proof (induction d arbitrary: fs)
  case Nil
  then show ?case by simp
next
  case (Cons x xs)
  then show ?case
    by (cases fs) (auto simp: update_conv' split: option.splits)
qed

lemma graft_same: "walk fs d = Inr n \<Longrightarrow> graft d n fs = fs"
proof (induction d arbitrary: fs)
  case Nil
  then show ?case by simp
next
  case (Cons x xs)
  then show ?case
    by (cases fs) (auto simp: update_triv split: option.splits)
qed

lemma alter_below:
  "walk fs d = Inr n \<Longrightarrow> q \<noteq> [] \<Longrightarrow>
   alter f (d @ q) fs = (case alter f q n of Inl e \<Rightarrow> Inl e | Inr n' \<Rightarrow> Inr (graft d n' fs))"
proof (induction d arbitrary: fs)
  case Nil
  then show ?case by (simp split: sum.splits)
next
  case (Cons x xs)
  then show ?case
    by (cases fs; cases "xs @ q") (auto split: option.splits sum.splits)
qed

lemma graft_below:
  "walk fs d = Inr n \<Longrightarrow> graft (d @ q) m fs = graft d (graft q m n) fs"
proof (induction d arbitrary: fs)
  case Nil
  then show ?case by simp
next
  case (Cons x xs)
  then show ?case
    by (cases fs) (auto split: option.splits)
qed

lemma graft_absent: "walk fs d = Inl e \<Longrightarrow> graft d m fs = fs"
proof (induction d arbitrary: fs)
  case Nil
  then show ?case by simp
next
  case (Cons x xs)
  then show ?case
    by (cases fs) (auto simp: update_triv split: option.splits)
qed

lemma walk_graft_at:
  "walk (graft d m fs) d = (case walk fs d of Inl e \<Rightarrow> Inl e | Inr n \<Rightarrow> Inr m)"
  by (cases "walk fs d") (simp_all add: graft_absent walk_graft_here)

lemma walk_p:
  "walk fs (p dir x) =
     (case walk fs dir of
        Inl e \<Rightarrow> Inl e
      | Inr (File c) \<Rightarrow> Inl NotADirectoryError
      | Inr (Dir es) \<Rightarrow> (case map_of es x of None \<Rightarrow> Inl FileNotFoundError | Some n \<Rightarrow> Inr n))"
  by (simp add: p_def walk_append split: sum.splits node.splits option.splits)

lemma alter_fails: "walk fs d = Inl e \<Longrightarrow> alter f (d @ [x]) fs = Inl e"
proof (induction d arbitrary: fs)
  case Nil
  then show ?case by simp
next
  case (Cons y ys)
  then show ?case
    by (cases fs; cases "ys @ [x]") (auto split: option.splits sum.splits)
qed

lemma alter_p:
  "alter f (p dir x) fs =
     (case walk fs dir of
        Inl e \<Rightarrow> Inl e
      | Inr (File c) \<Rightarrow> Inl NotADirectoryError
      | Inr (Dir es) \<Rightarrow>
          (case f (map_of es x) of
             Inl e \<Rightarrow> Inl e
           | Inr None \<Rightarrow> Inr (graft dir (Dir (AList.delete x es)) fs)
           | Inr (Some n) \<Rightarrow> Inr (graft dir (Dir (AList.update x n es)) fs)))"
proof (cases "walk fs dir")
  case (Inl e)
  then show ?thesis by (simp add: p_def alter_fails)
next
  case (Inr n)
  then show ?thesis
    by (cases n) (simp_all add: p_def alter_below split: sum.splits option.splits)
qed

lemmas fs_defs = os_path_exists_def os_path_isdir_def os_listdir_def read_file_def
  write_file_def os_mkdir_def os_remove_def shutil_rmtree_def os_makedirs_def

subsection \<open>The cache root\<close>

lemma runtime_cache_p: "runtime_cache = p [''Dependencies''] ''dotnet''"
  by (simp add: runtime_cache_def p_def)

lemma makedirs_there:
  assumes "walk fs runtime_cache = Inr (Dir es)"
  shows "os_makedirs runtime_cache fs = Inr fs"
proof -
  have "os_path_exists [''Dependencies''] fs"
    using assms
    by (auto simp: runtime_cache_p walk_p os_path_exists_def split: sum.splits)
  moreover have "os_mkdir runtime_cache fs = Inl FileExistsError"
    using assms
    by (auto simp: runtime_cache_p walk_p alter_p os_mkdir_def
        split: sum.splits node.splits option.splits)
  moreover have "os_path_isdir runtime_cache fs"
    using assms by (simp add: os_path_isdir_def)
  ultimately show ?thesis
    by (simp add: os_makedirs_def runtime_cache_def)
qed

lemma makedirs_absent:
  assumes "walk fs runtime_cache = Inl FileNotFoundError"
  shows "\<exists>fs'. os_makedirs runtime_cache fs = Inr fs' \<and> walk fs' runtime_cache = Inr (Dir [])"
proof (cases fs)
  case (File c)
  with assms show ?thesis by (simp add: runtime_cache_def)
next
  case (Dir top)
  show ?thesis
  proof (cases "map_of top ''Dependencies''")
    case None
    with Dir show ?thesis
      by (simp add: os_makedirs_def runtime_cache_def os_path_exists_def os_mkdir_def
          update_conv')
  next
    case (Some d)
    with Dir assms obtain ds where d: "d = Dir ds" and "map_of ds ''dotnet'' = None"
      by (cases d) (auto simp: runtime_cache_def split: option.splits)
    with Dir Some show ?thesis
      by (simp add: os_makedirs_def runtime_cache_def os_path_exists_def os_mkdir_def
          update_conv')
  qed
qed

lemma cache_parent:
  assumes "walk fs runtime_cache = Inr n"
  obtains ds where "walk fs [''Dependencies''] = Inr (Dir ds)" and "map_of ds ''dotnet'' = Some n"
  using assms
  by (auto simp: runtime_cache_p walk_p split: sum.splits node.splits option.splits)

lemma rmtree_cache:
  assumes "walk fs runtime_cache = Inr (Dir es)"
  shows "\<exists>fs'. shutil_rmtree runtime_cache fs = Inr fs' \<and>
           walk fs' runtime_cache = Inl FileNotFoundError"
proof -
  from assms obtain ds where ds: "walk fs [''Dependencies''] = Inr (Dir ds)"
    and es: "map_of ds ''dotnet'' = Some (Dir es)"
    by (rule cache_parent)
  let ?fs' = "graft [''Dependencies''] (Dir (AList.delete ''dotnet'' ds)) fs"
  have "shutil_rmtree runtime_cache fs = Inr ?fs'"
    using ds es by (simp add: runtime_cache_p alter_p shutil_rmtree_def)
  moreover have "walk ?fs' runtime_cache = Inl FileNotFoundError"
    using ds by (simp add: runtime_cache_p walk_p walk_graft_at delete_conv')
  ultimately show ?thesis by blast
qed

subsection \<open>Version bookkeeping and the download\<close>

lemma version_file_p: "walk fs version_file_path =
   (case walk fs runtime_cache of
      Inl e \<Rightarrow> Inl e
    | Inr (File c) \<Rightarrow> Inl NotADirectoryError
    | Inr (Dir es) \<Rightarrow>
        (case map_of es ''VERSION'' of None \<Rightarrow> Inl FileNotFoundError | Some n \<Rightarrow> Inr n))"
  by (simp add: version_file_path_def walk_p)

lemma write_version_p: "write_file version_file_path c fs =
   (case walk fs runtime_cache of
      Inl e \<Rightarrow> Inl e
    | Inr (File c') \<Rightarrow> Inl NotADirectoryError
    | Inr (Dir es) \<Rightarrow>
        (case map_of es ''VERSION'' of
           Some (Dir sub) \<Rightarrow> Inl IsADirectoryError
         | _ \<Rightarrow> Inr (graft runtime_cache (Dir (AList.update ''VERSION'' (File c) es)) fs)))"
  by (simp add: version_file_path_def write_file_def alter_p
      split: sum.splits node.splits option.splits)

lemma read_current_version_at:
  "read_current_version env s =
     (case read_as_text env version_file_path (files s) of
        Inl e \<Rightarrow> if e = FileNotFoundError then (Inr None, s) else (Inl e, s)
      | Inr content \<Rightarrow> (Inr (Some (strip content)), s))"
  by (simp add: read_current_version_def io_defs split: sum.splits)

lemma print_current_version_at:
  assumes "cache_usable env (files s)" and "read_current_version env s = (Inr v, s')"
  shows "print_current_version env v s' = (Inr (), s')"
  using assms
  by (auto simp: cache_usable_def read_current_version_at print_current_version_def io_defs
      split: sum.splits if_splits)

lemma version_read_is_file:
  assumes "walk fs runtime_cache = Inr (Dir es)"
    and "read_as_text env version_file_path fs = Inr content"
  obtains c where "map_of es ''VERSION'' = Some (File c)"
  using assms
  by (auto simp: read_as_text_def read_file_def version_file_p
      split: sum.splits node.splits option.splits)

lemma bookkeeping_fresh:
  assumes "walk (files s) runtime_cache = Inr (Dir es)"
    and "cache_usable env (files s)"
    and "read_as_text env version_file_path (files s) = Inr content"
    and "strip content = text_of DOTNET_RUNTIME_VERSION"
  shows "version_bookkeeping env s =
     (Inr (), s\<lparr>files := graft runtime_cache
        (Dir (AList.update ''VERSION'' (File DOTNET_RUNTIME_VERSION) es)) (files s)\<rparr>)"
proof -
  from assms(1,3) obtain c where c: "map_of es ''VERSION'' = Some (File c)"
    by (rule version_read_is_file)
  have r: "read_current_version env s = (Inr (Some (text_of DOTNET_RUNTIME_VERSION)), s)"
    using assms(3,4) by (simp add: read_current_version_at)
  from print_current_version_at [OF assms(2) r] r c assms(1) show ?thesis
    by (simp add: version_bookkeeping_def io_defs
        makedirs_there write_version_p os_path_exists_def)
qed

lemma bookkeeping_stale:
  assumes "walk (files s) runtime_cache = Inr (Dir es)"
    and "cache_usable env (files s)"
    and "case read_as_text env version_file_path (files s) of
           Inl e \<Rightarrow> e = FileNotFoundError
         | Inr content \<Rightarrow> strip content \<noteq> text_of DOTNET_RUNTIME_VERSION"
  shows "\<exists>fs'. version_bookkeeping env s =
           (Inr (), s\<lparr>files := fs', trace := trace s @ [Print ClearingOutdatedCache]\<rparr>) \<and>
         walk fs' runtime_cache = Inr (Dir [(''VERSION'', File DOTNET_RUNTIME_VERSION)])"
proof -
  from rmtree_cache [OF assms(1)] obtain fs1 where
    fs1: "shutil_rmtree runtime_cache (files s) = Inr fs1"
      "walk fs1 runtime_cache = Inl FileNotFoundError"
    by blast
  from makedirs_absent [OF fs1(2)] obtain fs2 where
    fs2: "os_makedirs runtime_cache fs1 = Inr fs2" "walk fs2 runtime_cache = Inr (Dir [])"
    by blast
  let ?fs3 = "graft runtime_cache (Dir [(''VERSION'', File DOTNET_RUNTIME_VERSION)]) fs2"
  have w: "write_file version_file_path DOTNET_RUNTIME_VERSION fs2 = Inr ?fs3"
    using fs2(2) by (simp add: write_version_p)
  have r: "\<exists>v. read_current_version env s = (Inr v, s) \<and>
      v \<noteq> Some (text_of DOTNET_RUNTIME_VERSION)"
    using assms(3)
    by (auto simp: read_current_version_at split: sum.splits)
  then obtain v where v: "read_current_version env s = (Inr v, s)"
    "v \<noteq> Some (text_of DOTNET_RUNTIME_VERSION)"
    by blast
  have "version_bookkeeping env s =
      (Inr (), s\<lparr>files := ?fs3, trace := trace s @ [Print ClearingOutdatedCache]\<rparr>)"
    using v print_current_version_at [OF assms(2) v(1)] fs1 fs2 w assms(1)
    by (simp add: version_bookkeeping_def io_defs os_path_exists_def)
  moreover have "walk ?fs3 runtime_cache = Inr (Dir [(''VERSION'', File DOTNET_RUNTIME_VERSION)])"
    using fs2(2) by (simp add: walk_graft_at)
  ultimately show ?thesis by blast
qed

lemma bookkeeping_absent:
  assumes "walk (files s) runtime_cache = Inl FileNotFoundError"
  shows "\<exists>fs'. version_bookkeeping env s = (Inr (), s\<lparr>files := fs'\<rparr>) \<and>
         walk fs' runtime_cache = Inr (Dir [(''VERSION'', File DOTNET_RUNTIME_VERSION)])"
proof -
  from makedirs_absent [OF assms] obtain fs2 where
    fs2: "os_makedirs runtime_cache (files s) = Inr fs2" "walk fs2 runtime_cache = Inr (Dir [])"
    by blast
  let ?fs3 = "graft runtime_cache (Dir [(''VERSION'', File DOTNET_RUNTIME_VERSION)]) fs2"
  have w: "write_file version_file_path DOTNET_RUNTIME_VERSION fs2 = Inr ?fs3"
    using fs2(2) by (simp add: write_version_p)
  have r: "read_current_version env s = (Inr None, s)"
    using assms
    by (simp add: read_current_version_at read_as_text_def read_file_def version_file_p)
  have "version_bookkeeping env s = (Inr (), s\<lparr>files := ?fs3\<rparr>)"
    using r fs2 w assms
    by (simp add: version_bookkeeping_def print_current_version_def io_defs os_path_exists_def)
  moreover have "walk ?fs3 runtime_cache = Inr (Dir [(''VERSION'', File DOTNET_RUNTIME_VERSION)])"
    using fs2(2) by (simp add: walk_graft_at)
  ultimately show ?thesis by blast
qed

lemma cache_usable_cases:
  assumes "cache_usable env fs"
  obtains (absent) "walk fs runtime_cache = Inl FileNotFoundError"
  | (missing) es where "walk fs runtime_cache = Inr (Dir es)"
      and "read_as_text env version_file_path fs = Inl FileNotFoundError"
  | (stamped) es content where "walk fs runtime_cache = Inr (Dir es)"
      and "read_as_text env version_file_path fs = Inr content"
  using assms
  by (auto simp: cache_usable_def read_as_text_def read_file_def version_file_p
      split: sum.splits node.splits option.splits)

lemma delete_absent: "map_of es x = None \<Longrightarrow> AList.delete x es = es"
  by (simp add: map_of_eq_None_iff)

lemma put_member_file:
  assumes "map_of es x = Some (File c)"
  shows "\<exists>c'. map_of (case put_member m es of Inl e \<Rightarrow> es | Inr es' \<Rightarrow> es') x = Some (File c')"
proof (cases m)
  case (Pair name n)
  with assms show ?thesis
    by (cases n) (auto simp: update_conv' split: option.splits node.splits)
qed

lemma put_members_file:
  "map_of es x = Some (File c) \<Longrightarrow> \<exists>c'. map_of (snd (put_members ms es)) x = Some (File c')"
proof (induction ms arbitrary: es c)
  case Nil
  then show ?case by simp
next
  case (Cons m ms)
  from put_member_file [OF Cons.prems, of m] obtain c' where
    c': "map_of (case put_member m es of Inl e \<Rightarrow> es | Inr es' \<Rightarrow> es') x = Some (File c')"
    by blast
  show ?case
  proof (cases "put_member m es")
    case (Inl e)
    with Cons.prems show ?thesis by simp
  next
    case (Inr es')
    with c' have "map_of es' x = Some (File c')" by simp
    from Cons.IH [OF this] Inr show ?thesis by simp
  qed
qed

lemma extracted_file:
  "map_of es x = Some (File c) \<Longrightarrow> \<exists>c'. map_of (extracted archive es) x = Some (File c')"
  unfolding extracted_def by (rule put_members_file)

lemma extractall_good:
  assumes "walk (files s) dir = Inr (Dir es)"
  shows "extractall archive dir s =
     (case extraction_error archive es of Some e \<Rightarrow> Inl e | None \<Rightarrow> Inr (),
      s\<lparr>files := graft dir (Dir (extracted archive es)) (files s)\<rparr>)"
  using assms
  by (simp add: extractall_def extraction_error_def extracted_def Let_def
      split: prod.splits option.splits)

lemma handler_line:
  "download_handler url file e =
     io_bind (emit (Print (failure_line url e))) (\<lambda>u. remove_if_exists file)"
  by (cases e) (simp_all add: download_handler_def failure_line_def)

lemma remove_if_exists_good:
  assumes "walk (files s) dir = Inr (Dir es)"
    and "\<forall>sub. map_of es x \<noteq> Some (Dir sub)"
  shows "remove_if_exists (p dir x) s =
     (Inr (), s\<lparr>files := graft dir (Dir (AList.delete x es)) (files s)\<rparr>)"
proof (cases "map_of es x")
  case None
  with assms(1) show ?thesis
    by (simp add: remove_if_exists_def io_defs os_path_exists_def walk_p delete_absent graft_same)
next
  case (Some n)
  with assms obtain c where "n = File c" by (cases n) auto
  with Some assms(1) show ?thesis
    by (simp add: remove_if_exists_def io_defs os_path_exists_def walk_p os_remove_def alter_p)
qed

lemma extractall_at:
  "extractall archive dir s =
     (case walk (files s) dir of
        Inl e \<Rightarrow> (Inl e, s)
      | Inr (File c) \<Rightarrow> (Inl NotADirectoryError, s)
      | Inr (Dir es) \<Rightarrow>
          (case extraction_error archive es of Some e \<Rightarrow> Inl e | None \<Rightarrow> Inr (),
           s\<lparr>files := graft dir (Dir (extracted archive es)) (files s)\<rparr>))"
  by (simp add: extractall_def extraction_error_def extracted_def Let_def
      split: prod.splits option.splits sum.splits node.splits)

lemma tar_branch:
  assumes "walk (files s) dir = Inr (Dir es)" and "map_of es ''download.tmp'' = Some (File c)"
  shows "io_bind (tar_extractall env (p dir ''download.tmp'') dir) (\<lambda>u.
          io_bind (emit (Print ExtractedTarGz)) (\<lambda>u.
          io_bind (io_update (os_remove (p dir ''download.tmp''))) (\<lambda>u.
          emit (Print (DownloadComplete platform))))) s =
         unpacked (TarExtractall (p dir ''download.tmp'') dir) ExtractedTarGz
           (tar_members env c) dir platform es s"
proof -
  from extracted_file [OF assms(2)] obtain c' where
    "map_of (extracted (tar_members env c) es) ''download.tmp'' = Some (File c')"
    by blast
  with assms show ?thesis
    by (simp add: tar_extractall_def io_defs read_file_def walk_p extractall_at unpacked_def
        os_remove_def alter_p walk_graft_at graft_graft
        split: option.splits)
qed

lemma zip_branch:
  assumes "walk (files s) dir = Inr (Dir es)" and "map_of es ''download.tmp'' = Some (File c)"
  shows "io_bind (zip_extractall env (p dir ''download.tmp'') dir) (\<lambda>u.
          io_bind (emit (Print ExtractedZip)) (\<lambda>u.
          io_bind (io_update (os_remove (p dir ''download.tmp''))) (\<lambda>u.
          emit (Print (DownloadComplete platform))))) s =
         unpacked (ZipExtractall (p dir ''download.tmp'') dir) ExtractedZip
           (zip_members env c) dir platform es s"
proof -
  from extracted_file [OF assms(2)] obtain c' where
    "map_of (extracted (zip_members env c) es) ''download.tmp'' = Some (File c')"
    by blast
  with assms show ?thesis
    by (simp add: zip_extractall_def io_defs read_file_def walk_p extractall_at unpacked_def
        os_remove_def alter_p walk_graft_at graft_graft
        split: option.splits)
qed

lemma html_check_at:
  assumes "walk (files s) dir = Inr (Dir es)" and "map_of es ''download.tmp'' = Some (File c)"
  shows "html_check env (p dir ''download.tmp'') s =
     (Inr (page_discarded env c),
      s\<lparr>files := (if page_discarded env c
                   then graft dir (Dir (AList.delete ''download.tmp'' es)) (files s)
                   else files s),
        trace := trace s @ peek_lines env c\<rparr>)"
  using assms
  by (simp add: html_check_def page_discarded_def peek_lines_def print_preview_def
      os_remove_open_def io_defs read_ignoring_errors_def read_file_def
      walk_p os_remove_def alter_p split: sum.splits option.splits)

lemma no_page:
  "\<not> looks_like_html env c \<Longrightarrow> \<not> page_discarded env c \<and> peek_lines env c = []"
  by (auto simp: looks_like_html_def page_discarded_def peek_lines_def split: sum.splits)


lemma io_bind_returns: "m s = (Inr x, s') \<Longrightarrow> io_bind m f s = f x s'"
  by (simp add: io_bind_def)

lemma io_bind_raises: "m s = (Inl e, s') \<Longrightarrow> io_bind m f s = (Inl e, s')"
  by (simp add: io_bind_def)

lemma io_try_returns: "m s = (Inr x, s') \<Longrightarrow> io_try m h s = (Inr x, s')"
  by (simp add: io_try_def)

lemma io_try_raises: "m s = (Inl e, s') \<Longrightarrow> io_try m h s = h e s'"
  by (simp add: io_try_def)

lemma urlretrieve_at:
  assumes "walk (files s) dir = Inr (Dir es)"
    and "\<forall>sub. map_of es ''download.tmp'' \<noteq> Some (Dir sub)"
  shows "urlretrieve env url (p dir ''download.tmp'') s =
     (case urlretrieve_result env (trace s) url of
        Saved c \<Rightarrow>
          (Inr (), s\<lparr>files := graft dir (Dir (AList.update ''download.tmp'' (File c) es)) (files s),
                      trace := trace s @ [Urlretrieve url (p dir ''download.tmp'')]\<rparr>)
      | Failed None e \<Rightarrow>
          (Inl e, s\<lparr>trace := trace s @ [Urlretrieve url (p dir ''download.tmp'')]\<rparr>)
      | Failed (Some c) e \<Rightarrow>
          (Inl e, s\<lparr>files := graft dir (Dir (AList.update ''download.tmp'' (File c) es)) (files s),
                     trace := trace s @ [Urlretrieve url (p dir ''download.tmp'')]\<rparr>))"
  using assms
  by (simp add: urlretrieve_def io_defs write_file_def alter_p Let_def
      split: fetched.splits option.splits node.splits)

lemma attempt_saved:
  assumes dir: "walk (files s) dir = Inr (Dir es)"
    and ok: "\<forall>sub. map_of es ''download.tmp'' \<noteq> Some (Dir sub)"
    and saved: "urlretrieve_result env (trace s) url = Saved c"
  shows "download_attempt env url dir platform s =
     (let es1 = AList.update ''download.tmp'' (File c) es;
          s1 = s\<lparr>files := graft dir (Dir es1) (files s),
                  trace := trace s @ Urlretrieve url (p dir ''download.tmp'') # peeked env c\<rparr>;
          cleared = graft dir (Dir (AList.delete ''download.tmp'' es)) (files s)
      in if length c < 10240 \<and> page_discarded env c
         then (Inr (), s1\<lparr>files := cleared\<rparr>)
         else if endswith url ''.tar.gz''
         then unpacked (TarExtractall (p dir ''download.tmp'') dir) ExtractedTarGz
                (tar_members env c) dir platform es1 s1
         else if endswith url ''.zip''
         then unpacked (ZipExtractall (p dir ''download.tmp'') dir) ExtractedZip
                (zip_members env c) dir platform es1 s1
         else (Inr (), s1\<lparr>files := cleared,
                           trace := trace s1 @ [Print (UnknownFileFormat url)]\<rparr>))"
proof -
  define es1 where "es1 = AList.update ''download.tmp'' (File c) es"
  define s0 where "s0 = s\<lparr>files := graft dir (Dir es1) (files s),
                  trace := trace s @ [Urlretrieve url (p dir ''download.tmp'')]\<rparr>"
  define s1 where "s1 = s\<lparr>files := graft dir (Dir es1) (files s),
                  trace := trace s @ Urlretrieve url (p dir ''download.tmp'') # peeked env c\<rparr>"
  define cleared where "cleared = graft dir (Dir (AList.delete ''download.tmp'' es)) (files s)"
  define discarded where "discarded = (length c < 10240 \<and> page_discarded env c)"
  have dir0: "walk (files s0) dir = Inr (Dir es1)"
    using dir by (simp add: s0_def walk_graft_at)
  have dir1: "walk (files s1) dir = Inr (Dir es1)"
    using dir by (simp add: s1_def walk_graft_at)
  have tmp1: "map_of es1 ''download.tmp'' = Some (File c)"
    by (simp add: es1_def update_conv')
  have fetch: "io_bind (urlretrieve env url (p dir ''download.tmp'')) f s = f () s0"
    for f :: "unit \<Rightarrow> unit io"
    using urlretrieve_at [OF dir ok, of env url] saved by (simp add: io_bind_def s0_def es1_def)
  have there: "io_bind (io_get (os_path_exists (p dir ''download.tmp''))) f s0 = f True s0"
    for f :: "bool \<Rightarrow> unit io"
    using dir0 tmp1 by (simp add: io_bind_def io_get_def os_path_exists_def walk_p)
  have size: "io_bind (io_query (os_path_getsize env (p dir ''download.tmp''))) f s0 =
      f (length c) s0" for f :: "nat \<Rightarrow> unit io"
    using dir0 tmp1 by (simp add: io_bind_def io_query_def os_path_getsize_def walk_p)
  have cleared0: "graft dir (Dir (AList.delete ''download.tmp'' es1)) (files s0) = cleared"
    by (simp add: s0_def es1_def cleared_def graft_graft delete_update_same)
  have cleared1: "graft dir (Dir (AList.delete ''download.tmp'' es1)) (files s1) = cleared"
    by (simp add: s1_def es1_def cleared_def graft_graft delete_update_same)
  have "(if length c < 10240 then html_check env (p dir ''download.tmp'')
         else io_return False) s0 =
      (Inr discarded, if discarded then s1\<lparr>files := cleared\<rparr> else s1)"
    using html_check_at [OF dir0 tmp1, of env] cleared0
    by (auto simp: io_return_def discarded_def peeked_def s0_def s1_def)
  then have peek: "io_bind (if length c < 10240 then html_check env (p dir ''download.tmp'')
                 else io_return False) f s0 =
      f discarded (if discarded then s1\<lparr>files := cleared\<rparr> else s1)"
    for f :: "bool \<Rightarrow> unit io"
    by (simp add: io_bind_def)
  have unknown: "io_bind (emit (Print (UnknownFileFormat url)))
        (\<lambda>u. io_update (os_remove (p dir ''download.tmp''))) s1 =
      (Inr (), s1\<lparr>files := cleared, trace := trace s1 @ [Print (UnknownFileFormat url)]\<rparr>)"
    using dir1 tmp1 cleared1 by (simp add: io_defs os_remove_def alter_p)
  have "download_attempt env url dir platform s =
     (if discarded then (Inr (), s1\<lparr>files := cleared\<rparr>)
      else if endswith url ''.tar.gz''
      then unpacked (TarExtractall (p dir ''download.tmp'') dir) ExtractedTarGz
             (tar_members env c) dir platform es1 s1
      else if endswith url ''.zip''
      then unpacked (ZipExtractall (p dir ''download.tmp'') dir) ExtractedZip
             (zip_members env c) dir platform es1 s1
      else (Inr (), s1\<lparr>files := cleared,
                        trace := trace s1 @ [Print (UnknownFileFormat url)]\<rparr>))"
  proof (cases discarded)
    case True
    then show ?thesis
      by (simp add: download_attempt_def Let_def fetch there size peek io_return_def)
  next
    case False
    then show ?thesis
      using tar_branch [OF dir1 tmp1, of env platform] zip_branch [OF dir1 tmp1, of env platform]
        unknown
      by (simp add: download_attempt_def Let_def fetch there size peek)
  qed
  then show ?thesis
    by (simp add: Let_def es1_def s1_def cleared_def discarded_def)
qed

lemma attempt_failed:
  assumes dir: "walk (files s) dir = Inr (Dir es)"
    and ok: "\<forall>sub. map_of es ''download.tmp'' \<noteq> Some (Dir sub)"
    and failed: "urlretrieve_result env (trace s) url = Failed written e"
  shows "download_attempt env url dir platform s =
     (Inl e, s\<lparr>files := (case written of
                             None \<Rightarrow> files s
                           | Some c \<Rightarrow>
                               graft dir (Dir (AList.update ''download.tmp'' (File c) es)) (files s)),
                trace := trace s @ [Urlretrieve url (p dir ''download.tmp'')]\<rparr>)"
  using urlretrieve_at [OF dir ok, of env url] failed
  by (cases written) (simp_all add: download_attempt_def Let_def io_bind_def)

lemma handler_at:
  assumes "walk (files s) dir = Inr (Dir es)"
    and "\<forall>sub. map_of es ''download.tmp'' \<noteq> Some (Dir sub)"
  shows "download_handler url (p dir ''download.tmp'') e s =
     (Inr (), s\<lparr>files := graft dir (Dir (AList.delete ''download.tmp'' es)) (files s),
                 trace := trace s @ [Print (failure_line url e)]\<rparr>)"
proof -
  let ?s = "s\<lparr>trace := trace s @ [Print (failure_line url e)]\<rparr>"
  have "walk (files ?s) dir = Inr (Dir es)" using assms(1) by simp
  from remove_if_exists_good [OF this assms(2)] show ?thesis
    by (simp add: handler_line io_bind_def emit_def)
qed

lemma handled_unpacked:
  assumes dir: "walk (files s) dir = Inr (Dir es)"
    and tmp: "map_of es ''download.tmp'' = Some (File c)"
  shows "io_try (unpacked call done archive dir platform es)
           (download_handler url (p dir ''download.tmp'')) s =
     (Inr (), s\<lparr>files := graft dir
                   (Dir (AList.delete ''download.tmp'' (extracted archive es))) (files s),
                 trace := trace s @ call #
                   (case extraction_error archive es of
                      None \<Rightarrow> [Print done, Print (DownloadComplete platform)]
                    | Some e \<Rightarrow> [Print (failure_line url e)])\<rparr>)"
proof (cases "extraction_error archive es")
  case None
  then show ?thesis by (simp add: io_try_def unpacked_def)
next
  case (Some e)
  let ?s = "s\<lparr>files := graft dir (Dir (extracted archive es)) (files s),
               trace := trace s @ [call]\<rparr>"
  from extracted_file [OF tmp] obtain c' where
    c': "map_of (extracted archive es) ''download.tmp'' = Some (File c')"
    by blast
  have "walk (files ?s) dir = Inr (Dir (extracted archive es))"
    using dir by (simp add: walk_graft_at)
  moreover have "\<forall>sub. map_of (extracted archive es) ''download.tmp'' \<noteq> Some (Dir sub)"
    using c' by simp
  ultimately have "download_handler url (p dir ''download.tmp'') e ?s =
     (Inr (), ?s\<lparr>files := graft dir
                   (Dir (AList.delete ''download.tmp'' (extracted archive es))) (files ?s),
                 trace := trace ?s @ [Print (failure_line url e)]\<rparr>)"
    by (rule handler_at)
  with Some show ?thesis by (simp add: io_try_def unpacked_def graft_graft)
qed

lemma download_saved:
  assumes url: "map_of downloads platform = Some url"
    and dir: "walk (files s) dir = Inr (Dir es)"
    and ok: "\<forall>sub. map_of es ''download.tmp'' \<noteq> Some (Dir sub)"
    and saved: "urlretrieve_result env (trace s @ [Print (Downloading platform)]) url = Saved c"
  shows "download_platform_runtime downloads env dir platform s =
     (let es1 = AList.update ''download.tmp'' (File c) es;
          file = p dir ''download.tmp'';
          begun = Print (Downloading platform) # Urlretrieve url file # peeked env c
      in if length c < 10240 \<and> page_discarded env c
         then (Inr (), s\<lparr>files := graft dir (Dir (AList.delete ''download.tmp'' es)) (files s),
                 trace := trace s @ begun\<rparr>)
         else if endswith url ''.tar.gz''
         then (Inr (), s\<lparr>files := graft dir (Dir (AList.delete ''download.tmp''
                   (extracted (tar_members env c) es1))) (files s),
                 trace := trace s @ begun @ [TarExtractall file dir] @
                   unpack_lines ExtractedTarGz (tar_members env c) url platform es1\<rparr>)
         else if endswith url ''.zip''
         then (Inr (), s\<lparr>files := graft dir (Dir (AList.delete ''download.tmp''
                   (extracted (zip_members env c) es1))) (files s),
                 trace := trace s @ begun @ [ZipExtractall file dir] @
                   unpack_lines ExtractedZip (zip_members env c) url platform es1\<rparr>)
         else (Inr (), s\<lparr>files := graft dir (Dir (AList.delete ''download.tmp'' es)) (files s),
                 trace := trace s @ begun @ [Print (UnknownFileFormat url)]\<rparr>))"
proof -
  define s0 where "s0 = s\<lparr>trace := trace s @ [Print (Downloading platform)]\<rparr>"
  define es1 where "es1 = AList.update ''download.tmp'' (File c) es"
  define s1 where "s1 = s0\<lparr>files := graft dir (Dir es1) (files s0),
      trace := trace s0 @ Urlretrieve url (p dir ''download.tmp'') # peeked env c\<rparr>"
  define discarded where "discarded = (length c < 10240 \<and> page_discarded env c)"
  have dir0: "walk (files s0) dir = Inr (Dir es)"
    using dir by (simp add: s0_def)
  have saved0: "urlretrieve_result env (trace s0) url = Saved c"
    using saved by (simp add: s0_def)
  have dir1: "walk (files s1) dir = Inr (Dir es1)"
    using dir by (simp add: s1_def s0_def walk_graft_at)
  have tmp1: "map_of es1 ''download.tmp'' = Some (File c)"
    by (simp add: es1_def update_conv')
  have start: "download_platform_runtime downloads env dir platform s =
      io_try (download_attempt env url dir platform)
        (download_handler url (p dir ''download.tmp'')) s0"
    using url by (simp add: download_platform_runtime_def io_bind_def emit_def s0_def)
  note attempt = attempt_saved [OF dir0 ok saved0, of platform, unfolded Let_def,
      folded es1_def, folded s1_def, folded discarded_def]
  note tar = handled_unpacked [OF dir1 tmp1,
      of "TarExtractall (p dir ''download.tmp'') dir" ExtractedTarGz "tar_members env c"
        platform url]
  note zip = handled_unpacked [OF dir1 tmp1,
      of "ZipExtractall (p dir ''download.tmp'') dir" ExtractedZip "zip_members env c"
        platform url]
  have split: "io_try (download_attempt env url dir platform) h s0 =
     (if discarded
      then (Inr (), s1\<lparr>files := graft dir (Dir (AList.delete ''download.tmp'' es)) (files s0)\<rparr>)
      else if endswith url ''.tar.gz''
      then io_try (unpacked (TarExtractall (p dir ''download.tmp'') dir) ExtractedTarGz
             (tar_members env c) dir platform es1) h s1
      else if endswith url ''.zip''
      then io_try (unpacked (ZipExtractall (p dir ''download.tmp'') dir) ExtractedZip
             (zip_members env c) dir platform es1) h s1
      else (Inr (), s1\<lparr>files := graft dir (Dir (AList.delete ''download.tmp'' es)) (files s0),
                        trace := trace s1 @ [Print (UnknownFileFormat url)]\<rparr>))" for h
    using attempt by (auto simp: io_try_def)
  have "io_try (download_attempt env url dir platform)
      (download_handler url (p dir ''download.tmp'')) s0 =
     (if discarded
      then (Inr (), s\<lparr>files := graft dir (Dir (AList.delete ''download.tmp'' es)) (files s),
              trace := trace s @ Print (Downloading platform) #
                Urlretrieve url (p dir ''download.tmp'') # peeked env c\<rparr>)
      else if endswith url ''.tar.gz''
      then (Inr (), s\<lparr>files := graft dir (Dir (AList.delete ''download.tmp''
                (extracted (tar_members env c) es1))) (files s),
              trace := trace s @ (Print (Downloading platform) #
                Urlretrieve url (p dir ''download.tmp'') # peeked env c) @
                [TarExtractall (p dir ''download.tmp'') dir] @
                unpack_lines ExtractedTarGz (tar_members env c) url platform es1\<rparr>)
      else if endswith url ''.zip''
      then (Inr (), s\<lparr>files := graft dir (Dir (AList.delete ''download.tmp''
                (extracted (zip_members env c) es1))) (files s),
              trace := trace s @ (Print (Downloading platform) #
                Urlretrieve url (p dir ''download.tmp'') # peeked env c) @
                [ZipExtractall (p dir ''download.tmp'') dir] @
                unpack_lines ExtractedZip (zip_members env c) url platform es1\<rparr>)
      else (Inr (), s\<lparr>files := graft dir (Dir (AList.delete ''download.tmp'' es)) (files s),
              trace := trace s @ (Print (Downloading platform) #
                Urlretrieve url (p dir ''download.tmp'') # peeked env c) @
                [Print (UnknownFileFormat url)]\<rparr>))"
    unfolding split tar zip
    by (auto simp: unpack_lines_def s1_def s0_def graft_graft)
  then show ?thesis
    unfolding start by (simp add: Let_def es1_def discarded_def)
qed

lemma download_failed:
  assumes url: "map_of downloads platform = Some url"
    and dir: "walk (files s) dir = Inr (Dir es)"
    and ok: "\<forall>sub. map_of es ''download.tmp'' \<noteq> Some (Dir sub)"
    and failed: "urlretrieve_result env (trace s @ [Print (Downloading platform)]) url =
       Failed written e"
  shows "download_platform_runtime downloads env dir platform s =
     (Inr (), s\<lparr>files := graft dir (Dir (AList.delete ''download.tmp'' es)) (files s),
        trace := trace s @ [Print (Downloading platform),
          Urlretrieve url (p dir ''download.tmp''), Print (failure_line url e)]\<rparr>)"
proof -
  define s0 where "s0 = s\<lparr>trace := trace s @ [Print (Downloading platform)]\<rparr>"
  have dir0: "walk (files s0) dir = Inr (Dir es)"
    using dir by (simp add: s0_def)
  have failed0: "urlretrieve_result env (trace s0) url = Failed written e"
    using failed by (simp add: s0_def)
  have start: "download_platform_runtime downloads env dir platform s =
      io_try (download_attempt env url dir platform)
        (download_handler url (p dir ''download.tmp'')) s0"
    using url by (simp add: download_platform_runtime_def io_bind_def emit_def s0_def)
  note attempt = attempt_failed [OF dir0 ok failed0, of platform]
  show ?thesis
  proof (cases written)
    case None
    let ?s = "s0\<lparr>trace := trace s0 @ [Urlretrieve url (p dir ''download.tmp'')]\<rparr>"
    have "walk (files ?s) dir = Inr (Dir es)" using dir0 by simp
    from handler_at [OF this ok, of url e] attempt None show ?thesis
      by (simp add: start io_try_def s0_def)
  next
    case (Some c)
    let ?es = "AList.update ''download.tmp'' (File c) es"
    let ?s = "s0\<lparr>files := graft dir (Dir ?es) (files s0),
               trace := trace s0 @ [Urlretrieve url (p dir ''download.tmp'')]\<rparr>"
    have "walk (files ?s) dir = Inr (Dir ?es)" using dir0 by (simp add: walk_graft_at)
    moreover have "\<forall>sub. map_of ?es ''download.tmp'' \<noteq> Some (Dir sub)"
      by (simp add: update_conv')
    ultimately have "download_handler url (p dir ''download.tmp'') e ?s =
       (Inr (), ?s\<lparr>files := graft dir (Dir (AList.delete ''download.tmp'' ?es)) (files ?s),
                 trace := trace ?s @ [Print (failure_line url e)]\<rparr>)"
      by (rule handler_at)
    with attempt Some show ?thesis
      by (simp add: start io_try_def s0_def graft_graft delete_update_same)
  qed
qed

lemma download_returns:
  assumes url: "map_of downloads platform = Some url"
    and dir: "walk (files s) dir = Inr (Dir es)"
    and ok: "\<forall>sub. map_of es ''download.tmp'' \<noteq> Some (Dir sub)"
  shows "\<exists>es' t. download_platform_runtime downloads env dir platform s =
           (Inr (), s\<lparr>files := graft dir (Dir (AList.delete ''download.tmp'' es')) (files s),
              trace := trace s @ Print (Downloading platform) #
                Urlretrieve url (p dir ''download.tmp'') # t\<rparr>)"
proof (cases "urlretrieve_result env (trace s @ [Print (Downloading platform)]) url")
  case (Saved c)
  note result = download_saved [OF url dir ok Saved, unfolded Let_def]
  show ?thesis
  proof (cases "length c < 10240 \<and> page_discarded env c")
    case True
    with result show ?thesis by auto
  next
    case html: False
    show ?thesis
    proof (cases "endswith url ''.tar.gz''")
      case True
      with html result show ?thesis by auto
    next
      case tar: False
      show ?thesis
      proof (cases "endswith url ''.zip''")
        case True
        with html tar result show ?thesis by auto
      next
        case False
        with html tar result show ?thesis by auto
      qed
    qed
  qed
next
  case (Failed written e)
  from download_failed [OF url dir ok Failed] show ?thesis by auto
qed



lemmas example_defs = example_env_def html_env_def fresh_cache_def text_of_def
  DOTNET_RUNTIME_DOWNLOADS_def DOTNET_RUNTIME_VERSION_def PLATFORM_LINUX_def
  PLATFORM_WINDOWS_def PLATFORM_MACOS_def runtime_cache_def version_file_path_def p_def

subsection \<open>The temporary file, the peek and the loop body\<close>



lemma urlretrieve_bad:
  assumes "\<not> (\<exists>es. walk (files s) dir = Inr (Dir es) \<and>
              (\<forall>sub. map_of es ''download.tmp'' \<noteq> Some (Dir sub)))"
  shows "\<exists>e s'. urlretrieve env url (p dir ''download.tmp'') s = (Inl e, s')"
proof (cases "urlretrieve_result env (trace s) url")
  case (Saved c)
  with assms show ?thesis
    by (auto simp: urlretrieve_def Let_def io_update_def write_file_def alter_p
        split: sum.splits node.splits option.splits)
next
  case (Failed written e)
  with assms show ?thesis
    by (cases written)
      (auto simp: urlretrieve_def Let_def io_update_def write_file_def alter_p
        split: sum.splits node.splits option.splits)
qed


lemma io_try_total: "\<exists>x s'. io_try m (\<lambda>e. io_return d) s = (Inr x, s')"
proof (cases "m s")
  case (Pair r s')
  then show ?thesis
    by (cases r) (auto simp: io_try_def io_return_def)
qed

lemma html_check_never_raises: "\<exists>found s'. html_check env file s = (Inr found, s')"
  unfolding html_check_def by (rule io_try_total)

lemma peek_error_is_swallowed:
  assumes "read_ignoring_errors env file (files s) = Inl e"
  shows "html_check env file s = (Inr False, s)"
  using assms by (simp add: html_check_def io_defs)

lemma urlretrieve_decoded:
  "urlretrieve (env\<lparr>decoded := d\<rparr>) url file s = urlretrieve env url file s"
  by (simp add: urlretrieve_def)

lemma looks_like_html_raised: "decoded env bytes = Inl e \<Longrightarrow> \<not> looks_like_html env bytes"
  by (simp add: looks_like_html_def)

lemma looks_like_html_empty: "\<not> looks_like_html (env\<lparr>decoded := \<lambda>b. Inr []\<rparr>) bytes"
  by (simp add: looks_like_html_def lower_def)

lemma attempt_peek_error:
  assumes saved: "urlretrieve_result env (trace s) url = Saved bytes"
    and raised: "decoded env bytes = Inl e"
  shows "download_attempt env url dir platform s =
         download_attempt (env\<lparr>decoded := \<lambda>b. Inr []\<rparr>) url dir platform s"
proof (cases "\<exists>es. walk (files s) dir = Inr (Dir es) \<and>
              (\<forall>sub. map_of es ''download.tmp'' \<noteq> Some (Dir sub))")
  case False
  from urlretrieve_bad [OF False, of env url] show ?thesis
    by (auto simp: download_attempt_def Let_def io_bind_def urlretrieve_decoded)
next
  case True
  then obtain es where dir: "walk (files s) dir = Inr (Dir es)"
    and ok: "\<forall>sub. map_of es ''download.tmp'' \<noteq> Some (Dir sub)"
    by blast
  have saved': "urlretrieve_result (env\<lparr>decoded := \<lambda>b. Inr []\<rparr>) (trace s) url = Saved bytes"
    using saved by simp
  have none: "\<not> page_discarded env bytes" "peeked env bytes = []"
    using no_page [OF looks_like_html_raised [OF raised]] by (simp_all add: peeked_def)
  have none': "\<not> page_discarded (env\<lparr>decoded := \<lambda>b. Inr []\<rparr>) bytes"
    "peeked (env\<lparr>decoded := \<lambda>b. Inr []\<rparr>) bytes = []"
    using no_page [OF looks_like_html_empty [of env bytes]] by (simp_all add: peeked_def)
  show ?thesis
    using attempt_saved [OF dir ok saved, of platform]
      attempt_saved [OF dir ok saved', of platform] none none'
    by (simp add: Let_def)
qed

lemma graft_p:
  assumes "walk fs dir = Inr (Dir es)" and "map_of es x = Some m"
  shows "graft (p dir x) n fs = graft dir (Dir (AList.update x n es)) fs"
  using graft_below [OF assms(1), of "[x]" n] assms(2) by (simp add: p_def)

lemma directory_made:
  assumes cache: "walk (files s) runtime_cache = Inr (Dir es)"
    and need: "map_of es platform = None \<or> map_of es platform = Some (Dir [])"
  shows "platform_directory_made platform s =
           s\<lparr>files := graft runtime_cache (Dir (AList.update platform (Dir []) es)) (files s)\<rparr>"
  using need
proof
  assume "map_of es platform = None"
  with cache show ?thesis
    by (simp add: platform_directory_made_def os_path_exists_def walk_p os_mkdir_def alter_p)
next
  assume "map_of es platform = Some (Dir [])"
  with cache show ?thesis
    by (simp add: platform_directory_made_def os_path_exists_def walk_p update_triv graft_same)
qed

lemma process_platform_needs_download:
  assumes cache: "walk (files s) runtime_cache = Inr (Dir es)"
    and need: "map_of es platform = None \<or> map_of es platform = Some (Dir [])"
  shows "process_platform downloads env platform s =
           download_platform_runtime downloads env (p runtime_cache platform) platform
             (platform_directory_made platform s)"
  using need
proof
  assume "map_of es platform = None"
  with cache show ?thesis
    by (simp add: process_platform_def Let_def io_defs platform_directory_made_def
        os_path_exists_def walk_p os_mkdir_def alter_p)
next
  assume "map_of es platform = Some (Dir [])"
  with cache show ?thesis
    by (simp add: process_platform_def Let_def io_defs platform_directory_made_def
        os_path_exists_def os_listdir_def walk_p)
qed

lemma process_platform_skips:
  assumes cache: "walk (files s) runtime_cache = Inr (Dir es)"
    and full: "map_of es platform = Some (Dir (x # xs))"
  shows "process_platform downloads env platform s =
           (Inr (), s\<lparr>trace := trace s @
              [Print (SkippingDownload platform (Suc (length xs)))]\<rparr>)"
  using assms
  by (simp add: process_platform_def Let_def io_defs os_path_exists_def os_listdir_def walk_p)

lemma process_platform_not_a_directory:
  assumes cache: "walk (files s) runtime_cache = Inr (Dir es)"
    and regular: "map_of es platform = Some (File c)"
  shows "process_platform downloads env platform s = (Inl NotADirectoryError, s)"
  using assms
  by (simp add: process_platform_def Let_def io_defs os_path_exists_def os_listdir_def walk_p)

lemma made_directory_is_empty:
  assumes cache: "walk (files s) runtime_cache = Inr (Dir es)"
    and need: "map_of es platform = None \<or> map_of es platform = Some (Dir [])"
  shows "walk (files (platform_directory_made platform s)) (p runtime_cache platform) =
           Inr (Dir [])"
  using cache by (simp add: directory_made [OF cache need] walk_p walk_graft_at update_conv')

lemma process_platform_known:
  assumes cache: "walk (files s) runtime_cache = Inr (Dir es)"
    and need: "map_of es platform = None \<or> map_of es platform = Some (Dir [])"
    and url: "map_of downloads platform = Some url"
  shows "\<exists>sub t. process_platform downloads env platform s =
           (Inr (), s\<lparr>files := graft runtime_cache
                        (Dir (AList.update platform (Dir sub) es)) (files s),
              trace := trace s @ Print (Downloading platform) #
                Urlretrieve url (p (p runtime_cache platform) ''download.tmp'') # t\<rparr>)"
proof -
  let ?s = "platform_directory_made platform s"
  let ?es = "AList.update platform (Dir []) es"
  have made: "?s = s\<lparr>files := graft runtime_cache (Dir ?es) (files s)\<rparr>"
    by (rule directory_made [OF cache need])
  have dir: "walk (files ?s) (p runtime_cache platform) = Inr (Dir [])"
    by (rule made_directory_is_empty [OF cache need])
  have cache': "walk (files ?s) runtime_cache = Inr (Dir ?es)"
    using cache by (simp add: made walk_graft_at)
  from download_returns [OF url dir, of env] obtain es' t where
    run: "download_platform_runtime downloads env (p runtime_cache platform) platform ?s =
      (Inr (), ?s\<lparr>files := graft (p runtime_cache platform)
          (Dir (AList.delete ''download.tmp'' es')) (files ?s),
        trace := trace ?s @ Print (Downloading platform) #
          Urlretrieve url (p (p runtime_cache platform) ''download.tmp'') # t\<rparr>)"
    by auto
  have "graft (p runtime_cache platform) (Dir (AList.delete ''download.tmp'' es')) (files ?s) =
      graft runtime_cache (Dir (AList.update platform (Dir (AList.delete ''download.tmp'' es')) es))
        (files s)"
    using graft_p [OF cache', of platform "Dir []"]
    by (simp add: update_conv' made graft_graft)
  with run show ?thesis
    by (simp add: process_platform_needs_download [OF cache need] made) blast
qed

lemma process_platform_unknown:
  assumes cache: "walk (files s) runtime_cache = Inr (Dir es)"
    and need: "map_of es platform = None \<or> map_of es platform = Some (Dir [])"
    and url: "map_of downloads platform = None"
  shows "process_platform downloads env platform s =
           (Inl KeyError, s\<lparr>files := graft runtime_cache
                        (Dir (AList.update platform (Dir []) es)) (files s),
              trace := trace s @ [Print (Downloading platform)]\<rparr>)"
  using url
  by (simp add: process_platform_needs_download [OF cache need] directory_made [OF cache need]
      download_platform_runtime_def io_defs)


lemma linux_url_tar_gz: "endswith
    ''https://builds.dotnet.microsoft.com/dotnet/Runtime/10.0.0/dotnet-runtime-10.0.0-linux-x64.tar.gz''
    ''.tar.gz''"
  by code_simp



lemma archive_is_no_page: "\<not> contains ''html'' (lower ''archive'')"
  "\<not> contains ''<!doctype'' (lower ''archive'')"
  by code_simp+

lemmas run_defs = update_netcore_runtime_def version_bookkeeping_def read_current_version_def
  print_current_version_def read_as_text_def print_preview_def os_remove_open_def
  process_platform_def download_platform_runtime_def download_attempt_def download_handler_def
  remove_if_exists_def html_check_def urlretrieve_def os_path_getsize_def
  read_ignoring_errors_def tar_extractall_def zip_extractall_def extractall_def
  io_defs fs_defs Let_def

subsection \<open>The bookkeeping and the loop\<close>

lemma stale_cases:
  assumes "stale env fs"
  obtains es where "walk fs runtime_cache = Inr (Dir es)"
    and "case read_as_text env version_file_path fs of
           Inl e \<Rightarrow> e = FileNotFoundError
         | Inr content \<Rightarrow> strip content \<noteq> text_of DOTNET_RUNTIME_VERSION"
  using assms
  by (auto simp: stale_def os_path_isdir_def split: sum.splits node.splits)

lemma bookkeeping_wipes:
  assumes "stale env (files s)" and "cache_usable env (files s)"
  shows "\<exists>fs'. version_bookkeeping env s =
           (Inr (), s\<lparr>files := fs', trace := trace s @ [Print ClearingOutdatedCache]\<rparr>) \<and>
         walk fs' runtime_cache = Inr (Dir [(''VERSION'', File DOTNET_RUNTIME_VERSION)])"
  using assms(1)
proof (cases rule: stale_cases)
  case (1 es)
  from bookkeeping_stale [OF 1(1) assms(2) 1(2)] show ?thesis .
qed

lemma bookkeeping_usable:
  assumes "cache_usable env (files s)"
  shows "\<exists>fs' t es'. version_bookkeeping env s =
             (Inr (), s\<lparr>files := fs', trace := trace s @ t\<rparr>) \<and>
           walk fs' runtime_cache = Inr (Dir es') \<and>
           map_of es' ''VERSION'' = Some (File DOTNET_RUNTIME_VERSION) \<and>
           (t = [] \<or> t = [Print ClearingOutdatedCache])"
  using assms
proof (cases rule: cache_usable_cases)
  case absent
  from bookkeeping_absent [OF absent] obtain fs' where
    "version_bookkeeping env s = (Inr (), s\<lparr>files := fs'\<rparr>)"
    "walk fs' runtime_cache = Inr (Dir [(''VERSION'', File DOTNET_RUNTIME_VERSION)])"
    by blast
  then have "version_bookkeeping env s = (Inr (), s\<lparr>files := fs', trace := trace s @ []\<rparr>) \<and>
      walk fs' runtime_cache = Inr (Dir [(''VERSION'', File DOTNET_RUNTIME_VERSION)]) \<and>
      map_of [(''VERSION'', File DOTNET_RUNTIME_VERSION)] ''VERSION'' =
        Some (File DOTNET_RUNTIME_VERSION)"
    by simp
  then show ?thesis by blast
next
  case (missing es)
  from missing(2) have "case read_as_text env version_file_path (files s) of
           Inl e \<Rightarrow> e = FileNotFoundError
         | Inr content \<Rightarrow> strip content \<noteq> text_of DOTNET_RUNTIME_VERSION"
    by simp
  from bookkeeping_stale [OF missing(1) assms this] obtain fs' where
    "version_bookkeeping env s =
       (Inr (), s\<lparr>files := fs', trace := trace s @ [Print ClearingOutdatedCache]\<rparr>)"
    "walk fs' runtime_cache = Inr (Dir [(''VERSION'', File DOTNET_RUNTIME_VERSION)])"
    by blast
  moreover have "map_of [(''VERSION'', File DOTNET_RUNTIME_VERSION)] ''VERSION'' =
        Some (File DOTNET_RUNTIME_VERSION)"
    by simp
  ultimately show ?thesis by blast
next
  case (stamped es content)
  show ?thesis
  proof (cases "strip content = text_of DOTNET_RUNTIME_VERSION")
    case True
    let ?es = "AList.update ''VERSION'' (File DOTNET_RUNTIME_VERSION) es"
    from bookkeeping_fresh [OF stamped(1) assms stamped(2) True]
    have "version_bookkeeping env s =
        (Inr (), s\<lparr>files := graft runtime_cache (Dir ?es) (files s), trace := trace s @ []\<rparr>)"
      by simp
    moreover have "walk (graft runtime_cache (Dir ?es) (files s)) runtime_cache = Inr (Dir ?es)"
      using stamped(1) by (simp add: walk_graft_at)
    moreover have "map_of ?es ''VERSION'' = Some (File DOTNET_RUNTIME_VERSION)"
      by (simp add: update_conv')
    ultimately show ?thesis by blast
  next
    case False
    with stamped(2) have "case read_as_text env version_file_path (files s) of
           Inl e \<Rightarrow> e = FileNotFoundError
         | Inr content \<Rightarrow> strip content \<noteq> text_of DOTNET_RUNTIME_VERSION"
      by simp
    from bookkeeping_stale [OF stamped(1) assms this] obtain fs' where
      "version_bookkeeping env s =
         (Inr (), s\<lparr>files := fs', trace := trace s @ [Print ClearingOutdatedCache]\<rparr>)"
      "walk fs' runtime_cache = Inr (Dir [(''VERSION'', File DOTNET_RUNTIME_VERSION)])"
      by blast
    moreover have "map_of [(''VERSION'', File DOTNET_RUNTIME_VERSION)] ''VERSION'' =
        Some (File DOTNET_RUNTIME_VERSION)"
      by simp
    ultimately show ?thesis by blast
  qed
qed

lemma process_platform_keeps_stamp:
  assumes cache: "walk (files s) runtime_cache = Inr (Dir es)"
    and stamp: "map_of es ''VERSION'' = Some (File v)"
    and run: "process_platform downloads env platform s = (r, s')"
  shows "\<exists>es'. walk (files s') runtime_cache = Inr (Dir es') \<and>
           map_of es' ''VERSION'' = Some (File v)"
proof (cases "map_of es platform")
  case None
  then have need: "map_of es platform = None \<or> map_of es platform = Some (Dir [])" by simp
  from None stamp have other: "platform \<noteq> ''VERSION''" by auto
  show ?thesis
  proof (cases "map_of downloads platform")
    case unknown: None
    from process_platform_unknown [OF cache need unknown, of env] run cache stamp other
    show ?thesis by (auto simp: walk_graft_at update_conv')
  next
    case (Some url)
    from process_platform_known [OF cache need Some, of env] run cache stamp other
    show ?thesis by (auto simp: walk_graft_at update_conv')
  qed
next
  case (Some n)
  show ?thesis
  proof (cases n)
    case (File c)
    from process_platform_not_a_directory [OF cache, of platform c downloads env] Some File
      run cache stamp
    show ?thesis by auto
  next
    case (Dir sub)
    with Some stamp have other: "platform \<noteq> ''VERSION''" by auto
    show ?thesis
    proof (cases sub)
      case (Cons x xs)
      from process_platform_skips [OF cache, of platform x xs downloads env] Some Dir Cons
        run cache stamp
      show ?thesis by auto
    next
      case Nil
      with Some Dir have need: "map_of es platform = None \<or> map_of es platform = Some (Dir [])"
        by simp
      show ?thesis
      proof (cases "map_of downloads platform")
        case None
        from process_platform_unknown [OF cache need None, of env] run cache stamp other
        show ?thesis by (auto simp: walk_graft_at update_conv')
      next
        case (Some url)
        from process_platform_known [OF cache need Some, of env] run cache stamp other
        show ?thesis by (auto simp: walk_graft_at update_conv')
      qed
    qed
  qed
qed

lemma process_platforms_keeps_stamp:
  assumes "walk (files s) runtime_cache = Inr (Dir es)"
    and "map_of es ''VERSION'' = Some (File v)"
    and "process_platforms downloads env platforms s = (r, s')"
  shows "\<exists>es'. walk (files s') runtime_cache = Inr (Dir es') \<and>
           map_of es' ''VERSION'' = Some (File v)"
  using assms
proof (induction platforms arbitrary: s es)
  case Nil
  then show ?case by (auto simp: io_return_def)
next
  case (Cons a platforms)
  obtain r1 s1 where one: "process_platform downloads env a s = (r1, s1)"
    by (cases "process_platform downloads env a s")
  from process_platform_keeps_stamp [OF Cons.prems(1,2) one] obtain es1 where
    kept: "walk (files s1) runtime_cache = Inr (Dir es1)" "map_of es1 ''VERSION'' = Some (File v)"
    by blast
  show ?case
  proof (cases r1)
    case (Inl e)
    with one Cons.prems(3) kept show ?thesis by (auto simp: io_bind_def)
  next
    case (Inr u)
    with one Cons.prems(3) have "process_platforms downloads env platforms s1 = (r, s')"
      by (simp add: io_bind_def)
    from Cons.IH [OF kept this] show ?thesis .
  qed
qed

lemma populated_entry:
  assumes "walk fs runtime_cache = Inr (Dir es)" and "populated platform fs"
  obtains x xs where "map_of es platform = Some (Dir (x # xs))"
proof -
  from assms obtain sub where "map_of es platform = Some (Dir sub)" and "sub \<noteq> []"
    by (auto simp: populated_def os_listdir_def walk_p split: option.splits node.splits)
  then show ?thesis using that by (cases sub) auto
qed

lemma process_platforms_all_skipped:
  assumes "walk (files s) runtime_cache = Inr (Dir es)"
    and "\<forall>platform\<in>set platforms. populated platform (files s)"
  shows "\<exists>t. process_platforms downloads env platforms s = (Inr (), s\<lparr>trace := trace s @ t\<rparr>) \<and>
           fetches t = []"
  using assms
proof (induction platforms arbitrary: s)
  case Nil
  have "process_platforms downloads env [] s = (Inr (), s\<lparr>trace := trace s @ []\<rparr>)"
    by (simp add: io_return_def)
  moreover have "fetches [] = []" by (simp add: fetches_def)
  ultimately show ?case by blast
next
  case (Cons a platforms)
  from Cons.prems have "populated a (files s)" by simp
  with Cons.prems(1) obtain x xs where full: "map_of es a = Some (Dir (x # xs))"
    by (rule populated_entry)
  let ?s = "s\<lparr>trace := trace s @ [Print (SkippingDownload a (Suc (length xs)))]\<rparr>"
  have one: "process_platform downloads env a s = (Inr (), ?s)"
    by (rule process_platform_skips [OF Cons.prems(1) full])
  have "walk (files ?s) runtime_cache = Inr (Dir es)"
    using Cons.prems(1) by simp
  moreover have "\<forall>platform\<in>set platforms. populated platform (files ?s)"
    using Cons.prems(2) by simp
  ultimately obtain t where
    rest: "process_platforms downloads env platforms ?s = (Inr (), ?s\<lparr>trace := trace ?s @ t\<rparr>)"
    and none: "fetches t = []"
    using Cons.IH by blast
  have "process_platforms downloads env (a # platforms) s =
      (Inr (), s\<lparr>trace := trace s @ Print (SkippingDownload a (Suc (length xs))) # t\<rparr>)"
    using one rest by (simp add: io_bind_def)
  moreover have "fetches (Print (SkippingDownload a (Suc (length xs))) # t) = []"
    using none by (simp add: fetches_def)
  ultimately show ?case by blast
qed





lemma stale_cache_is_usable: "cache_usable example_env (files stale_cache)"
  by (simp add: cache_usable_def stale_cache_def read_as_text_def read_file_def example_defs)

subsection \<open>A failure stays with its platform\<close>



subsection \<open>An error page instead of an archive\<close>

lemma page_is_html: "contains ''html'' (lower ''<!DOCTYPE HTML>'')"
  by code_simp

lemma discarded_page_returns:
  assumes "map_of downloads platform = Some url"
    and "walk (files s) dir = Inr (Dir es)"
    and "map_of es ''download.tmp'' = None"
    and "urlretrieve_result env (trace s @ [Print (Downloading platform)]) url = Saved bytes"
    and "length bytes < 10240"
    and "page_discarded env bytes"
  shows "download_platform_runtime downloads env dir platform s =
     (Inr (), s\<lparr>trace := trace s @ Print (Downloading platform) #
        Urlretrieve url (p dir ''download.tmp'') # peek_lines env bytes\<rparr>)"
proof -
  have ok: "\<forall>sub. map_of es ''download.tmp'' \<noteq> Some (Dir sub)"
    using assms(3) by simp
  have same: "graft dir (Dir (AList.delete ''download.tmp'' es)) (files s) = files s"
    using assms(2,3) by (simp add: delete_absent graft_same)
  from download_saved [OF assms(1,2) ok assms(4)] assms(5,6) same show ?thesis
    by (simp add: Let_def peeked_def)
qed

lemma page_is_discarded_on_posix:
  "download_platform_runtime DOTNET_RUNTIME_DOWNLOADS html_env (p runtime_cache ''linux'')
     ''linux'' fresh_cache =
   (Inr (), fresh_cache\<lparr>trace := [Print (Downloading ''linux''),
      Urlretrieve
        ''https://builds.dotnet.microsoft.com/dotnet/Runtime/10.0.0/dotnet-runtime-10.0.0-linux-x64.tar.gz''
        [''Dependencies'', ''dotnet'', ''linux'', ''download.tmp''],
      Print HtmlInsteadOfRuntime, Print (ContentPreview ''<!DOCTYPE HTML>'')]\<rparr>)"
  using page_is_html
    discarded_page_returns [of DOTNET_RUNTIME_DOWNLOADS "''linux''"
      "''https://builds.dotnet.microsoft.com/dotnet/Runtime/10.0.0/dotnet-runtime-10.0.0-linux-x64.tar.gz''"
      fresh_cache "p runtime_cache ''linux''" "[]" html_env "''<!DOCTYPE HTML>''"]
  by (simp add: example_defs page_discarded_def peek_lines_def)

text \<open>
  C5. The claim: a fetched file shorter than 10240 bytes whose text holds \<^verbatim>\<open>html\<close> or
  \<^verbatim>\<open><!doctype\<close> is deleted and the function returns without an extraction. The script
  prints the preview (line 123) and removes the file (line 124) before the \<^verbatim>\<open>return\<close> of
  line 125, all under the bare \<^verbatim>\<open>except\<close> of line 126, and the removal stands inside the
  \<^verbatim>\<open>with\<close> of line 119, where the file is still open. For the page \<^verbatim>\<open><!DOCTYPE HTML>\<close>
  of 15 bytes, fetched for \<^verbatim>\<open>linux\<close>: on a host that refuses to remove an open file the
  \<^verbatim>\<open>PermissionError\<close> is passed over, the \<^verbatim>\<open>return\<close> is not reached, and the tar extraction
  is called on the page, fails, and its handler removes the file; the same happens, without
  the preview, where the output cannot encode the preview.
\<close>

theorem detected_page_is_extracted:
  "download_platform_runtime DOTNET_RUNTIME_DOWNLOADS windows_html_env (p runtime_cache ''linux'')
     ''linux'' fresh_cache =
   (Inr (), fresh_cache\<lparr>trace := [Print (Downloading ''linux''),
      Urlretrieve
        ''https://builds.dotnet.microsoft.com/dotnet/Runtime/10.0.0/dotnet-runtime-10.0.0-linux-x64.tar.gz''
        [''Dependencies'', ''dotnet'', ''linux'', ''download.tmp''],
      Print HtmlInsteadOfRuntime, Print (ContentPreview ''<!DOCTYPE HTML>''),
      TarExtractall [''Dependencies'', ''dotnet'', ''linux'', ''download.tmp'']
        [''Dependencies'', ''dotnet'', ''linux''],
      Print TarFailed]\<rparr>) \<and>
   download_platform_runtime DOTNET_RUNTIME_DOWNLOADS narrow_output_env (p runtime_cache ''linux'')
     ''linux'' fresh_cache =
   (Inr (), fresh_cache\<lparr>trace := [Print (Downloading ''linux''),
      Urlretrieve
        ''https://builds.dotnet.microsoft.com/dotnet/Runtime/10.0.0/dotnet-runtime-10.0.0-linux-x64.tar.gz''
        [''Dependencies'', ''dotnet'', ''linux'', ''download.tmp''],
      Print HtmlInsteadOfRuntime,
      TarExtractall [''Dependencies'', ''dotnet'', ''linux'', ''download.tmp'']
        [''Dependencies'', ''dotnet'', ''linux''],
      Print TarFailed]\<rparr>)"
  by (simp add: run_defs example_defs windows_html_env_def narrow_output_env_def
      linux_url_tar_gz page_is_html)

subsection \<open>The suffix of the URL\<close>



subsection \<open>The temporary file\<close>



subsection \<open>An error while peeking\<close>

text \<open>
  C8. When the file that was fetched is shorter than 10240 bytes and reading it as text
  raises, the download goes on exactly as with a file whose text holds none of the two
  marks: the two runs return the same result and leave the same state. More generally, a
  read that raises makes the peek answer "no page" in the state it started in, and the
  peek never raises.
\<close>

theorem peek_error_is_passed_over:
  assumes "map_of downloads platform = Some url"
    and "urlretrieve_result env (trace s @ [Print (Downloading platform)]) url = Saved bytes"
    and "length bytes < 10240"
    and "decoded env bytes = Inl e"
  shows "download_platform_runtime downloads env dir platform s =
           download_platform_runtime downloads (env\<lparr>decoded := \<lambda>b. Inr []\<rparr>) dir platform s \<and>
         (\<forall>file st e'. read_ignoring_errors env file (files st) = Inl e' \<longrightarrow>
            html_check env file st = (Inr False, st)) \<and>
         (\<forall>file st. \<exists>found st'. html_check env file st = (Inr found, st'))"
proof -
  define s0 where "s0 = s\<lparr>trace := trace s @ [Print (Downloading platform)]\<rparr>"
  have "urlretrieve_result env (trace s0) url = Saved bytes"
    using assms(2) by (simp add: s0_def)
  from attempt_peek_error [OF this assms(4), of dir platform]
  have "download_platform_runtime downloads env dir platform s =
        download_platform_runtime downloads (env\<lparr>decoded := \<lambda>b. Inr []\<rparr>) dir platform s"
    using assms(1)
    by (simp add: download_platform_runtime_def io_bind_def io_try_def emit_def s0_def)
  then show ?thesis
    using peek_error_is_swallowed html_check_never_raises by blast
qed

theorem peek_error_is_passed_over_witness:
  "download_platform_runtime DOTNET_RUNTIME_DOWNLOADS undecodable_env (p runtime_cache ''linux'')
     ''linux'' fresh_cache =
   (Inr (), \<lparr>files = Dir [(''Dependencies'', Dir [(''dotnet'',
         Dir [(''VERSION'', File ''10.0.0''), (''linux'', Dir [(''dotnet'', File ''elf'')]),
              (''windows'', Dir [])])])],
      trace = [Print (Downloading ''linux''),
        Urlretrieve
          ''https://builds.dotnet.microsoft.com/dotnet/Runtime/10.0.0/dotnet-runtime-10.0.0-linux-x64.tar.gz''
          [''Dependencies'', ''dotnet'', ''linux'', ''download.tmp''],
        TarExtractall [''Dependencies'', ''dotnet'', ''linux'', ''download.tmp'']
          [''Dependencies'', ''dotnet'', ''linux''],
        Print ExtractedTarGz, Print (DownloadComplete ''linux'')]\<rparr>) \<and>
   html_check undecodable_env (p (p runtime_cache ''linux'') ''download.tmp'') fresh_cache =
   (Inr False, fresh_cache)"
proof -
  have passed: "download_platform_runtime DOTNET_RUNTIME_DOWNLOADS
     (undecodable_env\<lparr>decoded := \<lambda>b. Inr []\<rparr>) (p runtime_cache ''linux'') ''linux'' fresh_cache =
   (Inr (), \<lparr>files = Dir [(''Dependencies'', Dir [(''dotnet'',
         Dir [(''VERSION'', File ''10.0.0''), (''linux'', Dir [(''dotnet'', File ''elf'')]),
              (''windows'', Dir [])])])],
      trace = [Print (Downloading ''linux''),
        Urlretrieve
          ''https://builds.dotnet.microsoft.com/dotnet/Runtime/10.0.0/dotnet-runtime-10.0.0-linux-x64.tar.gz''
          [''Dependencies'', ''dotnet'', ''linux'', ''download.tmp''],
        TarExtractall [''Dependencies'', ''dotnet'', ''linux'', ''download.tmp'']
          [''Dependencies'', ''dotnet'', ''linux''],
        Print ExtractedTarGz, Print (DownloadComplete ''linux'')]\<rparr>)"
    by (simp add: run_defs example_defs undecodable_env_def linux_url_tar_gz lower_def)
  have missing: "read_ignoring_errors undecodable_env
      (p (p runtime_cache ''linux'') ''download.tmp'') (files fresh_cache) = Inl FileNotFoundError"
    by (simp add: read_ignoring_errors_def read_file_def example_defs)
  from peek_error_is_passed_over [of DOTNET_RUNTIME_DOWNLOADS "''linux''"
      "''https://builds.dotnet.microsoft.com/dotnet/Runtime/10.0.0/dotnet-runtime-10.0.0-linux-x64.tar.gz''"
      undecodable_env fresh_cache "''archive''" OtherException "p runtime_cache ''linux''"]
  have "download_platform_runtime DOTNET_RUNTIME_DOWNLOADS undecodable_env
          (p runtime_cache ''linux'') ''linux'' fresh_cache =
        download_platform_runtime DOTNET_RUNTIME_DOWNLOADS
          (undecodable_env\<lparr>decoded := \<lambda>b. Inr []\<rparr>) (p runtime_cache ''linux'') ''linux''
          fresh_cache"
    and "\<forall>file st e'. read_ignoring_errors undecodable_env file (files st) = Inl e' \<longrightarrow>
            html_check undecodable_env file st = (Inr False, st)"
    by (simp_all add: example_defs undecodable_env_def)
  with passed missing show ?thesis by simp
qed

subsection \<open>No platforms\<close>

text \<open>
  C9. On a usable cache root, \<^verbatim>\<open>update_netcore_runtime\<close> with no platform does the version
  bookkeeping, prints the warning and returns without an exception. The files it leaves
  are those the bookkeeping left, the bookkeeping prints at most the line of the wipe, and
  nothing is fetched.
\<close>

theorem empty_platform_list:
  assumes "cache_usable env (files s)"
  shows "\<exists>s1. version_bookkeeping env s = (Inr (), s1) \<and>
           update_netcore_runtime downloads env [] s =
             (Inr (), s1\<lparr>trace := trace s1 @ [Print NoPlatformsSpecified]\<rparr>) \<and>
           (trace s1 = trace s \<or> trace s1 = trace s @ [Print ClearingOutdatedCache]) \<and>
           fetches (trace s1 @ [Print NoPlatformsSpecified]) = fetches (trace s)"
proof -
  from bookkeeping_usable [OF assms] obtain fs' t where
    run: "version_bookkeeping env s = (Inr (), s\<lparr>files := fs', trace := trace s @ t\<rparr>)"
    and t: "t = [] \<or> t = [Print ClearingOutdatedCache]"
    by blast
  let ?s1 = "s\<lparr>files := fs', trace := trace s @ t\<rparr>"
  have "update_netcore_runtime downloads env [] s =
      (Inr (), ?s1\<lparr>trace := trace ?s1 @ [Print NoPlatformsSpecified]\<rparr>)"
    using run by (simp add: update_netcore_runtime_def io_bind_def emit_def)
  moreover have "trace ?s1 = trace s \<or> trace ?s1 = trace s @ [Print ClearingOutdatedCache]"
    using t by auto
  moreover have "fetches (trace ?s1 @ [Print NoPlatformsSpecified]) = fetches (trace s)"
    using t by (auto simp: fetches_def)
  ultimately show ?thesis using run by blast
qed

theorem empty_platform_list_witness:
  "update_netcore_runtime DOTNET_RUNTIME_DOWNLOADS example_env [] stale_cache =
     (Inr (), \<lparr>files = Dir [(''Dependencies'', Dir [(''dotnet'',
                   Dir [(''VERSION'', File ''10.0.0'')])])],
               trace = [Print ClearingOutdatedCache, Print NoPlatformsSpecified]\<rparr>) \<and>
   update_netcore_runtime DOTNET_RUNTIME_DOWNLOADS example_env [] fresh_cache =
     (Inr (), fresh_cache\<lparr>trace := [Print NoPlatformsSpecified]\<rparr>)"
proof -
  have fresh: "cache_usable example_env (files fresh_cache)"
    by (simp add: cache_usable_def read_as_text_def read_file_def example_defs)
  have wiped: "version_bookkeeping example_env stale_cache =
     (Inr (), \<lparr>files = Dir [(''Dependencies'', Dir [(''dotnet'',
                   Dir [(''VERSION'', File ''10.0.0'')])])],
               trace = [Print ClearingOutdatedCache]\<rparr>)"
    by (simp add: run_defs example_defs stale_cache_def strip_def isspace_def)
  have kept: "version_bookkeeping example_env fresh_cache = (Inr (), fresh_cache)"
    by (simp add: run_defs example_defs strip_def isspace_def)
  from empty_platform_list [OF stale_cache_is_usable, of DOTNET_RUNTIME_DOWNLOADS]
    empty_platform_list [OF fresh, of DOTNET_RUNTIME_DOWNLOADS]
    wiped kept
  show ?thesis by (auto simp: fresh_cache_def)
qed

subsection \<open>The version stamp\<close>

lemma padded_cache_is_current:
  "cache_usable example_env (files padded_cache) \<and> \<not> stale example_env (files padded_cache)"
  by (simp add: cache_usable_def stale_def padded_cache_def read_as_text_def read_file_def
      example_defs strip_def isspace_def)

text \<open>
  C10. The bookkeeping comes before the test for an empty list. On a usable cache root,
  however \<^verbatim>\<open>update_netcore_runtime\<close> ends (it returns, or an exception leaves the loop)
  and whatever the platforms are, \<^verbatim>\<open>VERSION\<close> then holds exactly the expected version.
  With no platform and a stale cache, the run returns, the cache root holds \<^verbatim>\<open>VERSION\<close>
  and nothing else, and the trace is the line of the wipe and the warning.
\<close>

theorem version_is_stamped_first:
  assumes "cache_usable env (files s)"
    and "update_netcore_runtime downloads env platforms s = (r, s')"
  shows "read_file version_file_path (files s') = Inr DOTNET_RUNTIME_VERSION \<and>
         (platforms = [] \<and> stale env (files s) \<longrightarrow>
            r = Inr () \<and>
            walk (files s') runtime_cache =
              Inr (Dir [(''VERSION'', File DOTNET_RUNTIME_VERSION)]) \<and>
            trace s' = trace s @ [Print ClearingOutdatedCache, Print NoPlatformsSpecified])"
proof -
  from bookkeeping_usable [OF assms(1)] obtain fs1 t es1 where
    book: "version_bookkeeping env s = (Inr (), s\<lparr>files := fs1, trace := trace s @ t\<rparr>)"
    and cache: "walk fs1 runtime_cache = Inr (Dir es1)"
    and stamp: "map_of es1 ''VERSION'' = Some (File DOTNET_RUNTIME_VERSION)"
    by blast
  let ?s1 = "s\<lparr>files := fs1, trace := trace s @ t\<rparr>"
  have cache1: "walk (files ?s1) runtime_cache = Inr (Dir es1)"
    using cache by simp
  have "\<exists>es'. walk (files s') runtime_cache = Inr (Dir es') \<and>
           map_of es' ''VERSION'' = Some (File DOTNET_RUNTIME_VERSION)"
  proof (cases "platforms = []")
    case True
    with book assms(2) cache stamp show ?thesis
      by (auto simp: update_netcore_runtime_def io_bind_def emit_def)
  next
    case False
    obtain r2 s2 where loop: "process_platforms downloads env platforms ?s1 = (r2, s2)"
      by (cases "process_platforms downloads env platforms ?s1")
    from process_platforms_keeps_stamp [OF cache1 stamp loop] obtain es2 where
      "walk (files s2) runtime_cache = Inr (Dir es2)"
      "map_of es2 ''VERSION'' = Some (File DOTNET_RUNTIME_VERSION)"
      by blast
    with False book loop assms(2) show ?thesis
      by (cases r2) (auto simp: update_netcore_runtime_def io_bind_def emit_def)
  qed
  then have first: "read_file version_file_path (files s') = Inr DOTNET_RUNTIME_VERSION"
    by (auto simp: read_file_def version_file_p)
  have second: "r = Inr () \<and>
            walk (files s') runtime_cache =
              Inr (Dir [(''VERSION'', File DOTNET_RUNTIME_VERSION)]) \<and>
            trace s' = trace s @ [Print ClearingOutdatedCache, Print NoPlatformsSpecified]"
    if "platforms = []" and "stale env (files s)"
  proof -
    from bookkeeping_wipes [OF that(2) assms(1)] obtain fs' where
      "version_bookkeeping env s =
           (Inr (), s\<lparr>files := fs', trace := trace s @ [Print ClearingOutdatedCache]\<rparr>)"
      "walk fs' runtime_cache = Inr (Dir [(''VERSION'', File DOTNET_RUNTIME_VERSION)])"
      by blast
    with that(1) assms(2) show ?thesis
      by (auto simp: update_netcore_runtime_def io_bind_def emit_def)
  qed
  from first second show ?thesis by blast
qed

theorem version_is_stamped_first_witness:
  "read_file version_file_path
     (files (snd (update_netcore_runtime DOTNET_RUNTIME_DOWNLOADS example_env [] stale_cache))) =
     Inr ''10.0.0'' \<and>
   update_netcore_runtime DOTNET_RUNTIME_DOWNLOADS example_env [] stale_cache =
     (Inr (), \<lparr>files = Dir [(''Dependencies'', Dir [(''dotnet'',
                   Dir [(''VERSION'', File ''10.0.0'')])])],
               trace = [Print ClearingOutdatedCache, Print NoPlatformsSpecified]\<rparr>) \<and>
   update_netcore_runtime DOTNET_RUNTIME_DOWNLOADS example_env [''bogus''] stale_cache =
     (Inl KeyError, \<lparr>files = Dir [(''Dependencies'', Dir [(''dotnet'',
                   Dir [(''VERSION'', File ''10.0.0''), (''bogus'', Dir [])])])],
               trace = [Print ClearingOutdatedCache, Print (Downloading ''bogus'')]\<rparr>) \<and>
   read_file version_file_path
     (files (snd (update_netcore_runtime DOTNET_RUNTIME_DOWNLOADS example_env [''bogus'']
        stale_cache))) = Inr ''10.0.0'' \<and>
   update_netcore_runtime DOTNET_RUNTIME_DOWNLOADS example_env [] padded_cache =
     (Inr (), \<lparr>files = Dir [(''Dependencies'', Dir [(''dotnet'',
                   Dir [(''VERSION'', File ''10.0.0''),
                        (''linux'', Dir [(''dotnet'', File ''elf'')])])])],
               trace = [Print NoPlatformsSpecified]\<rparr>)"
proof -
  have none: "update_netcore_runtime DOTNET_RUNTIME_DOWNLOADS example_env [] stale_cache =
     (Inr (), \<lparr>files = Dir [(''Dependencies'', Dir [(''dotnet'',
                   Dir [(''VERSION'', File ''10.0.0'')])])],
               trace = [Print ClearingOutdatedCache, Print NoPlatformsSpecified]\<rparr>)"
    by (simp add: run_defs example_defs stale_cache_def strip_def isspace_def)
  have bogus: "update_netcore_runtime DOTNET_RUNTIME_DOWNLOADS example_env [''bogus''] stale_cache =
     (Inl KeyError, \<lparr>files = Dir [(''Dependencies'', Dir [(''dotnet'',
                   Dir [(''VERSION'', File ''10.0.0''), (''bogus'', Dir [])])])],
               trace = [Print ClearingOutdatedCache, Print (Downloading ''bogus'')]\<rparr>)"
    by (simp add: run_defs example_defs stale_cache_def strip_def isspace_def)
  have padded: "update_netcore_runtime DOTNET_RUNTIME_DOWNLOADS example_env [] padded_cache =
     (Inr (), \<lparr>files = Dir [(''Dependencies'', Dir [(''dotnet'',
                   Dir [(''VERSION'', File ''10.0.0''),
                        (''linux'', Dir [(''dotnet'', File ''elf'')])])])],
               trace = [Print NoPlatformsSpecified]\<rparr>)"
    by (simp add: run_defs example_defs padded_cache_def strip_def isspace_def)
  from version_is_stamped_first [OF stale_cache_is_usable none]
    version_is_stamped_first [OF stale_cache_is_usable bogus] none bogus padded
  show ?thesis by (simp add: DOTNET_RUNTIME_VERSION_def)
qed

subsection \<open>A second run\<close>

text \<open>
  C2. After a run of \<^verbatim>\<open>update_netcore_runtime\<close>, however it ended, let \<^verbatim>\<open>VERSION\<close> read as
  the expected version and let the directory of every requested platform hold something.
  Then a second run on the files the first one left, with the same platforms and whatever
  the network does by then, returns without an exception and calls \<^verbatim>\<open>urlretrieve\<close> not
  once, and the platform directories still hold something afterwards.
\<close>

theorem second_run_fetches_nothing:
  assumes "update_netcore_runtime downloads env1 platforms s0 = (r1, s1)"
    and "cache_usable env2 (files s1)"
    and "read_as_text env2 version_file_path (files s1) = Inr version"
    and "strip version = text_of DOTNET_RUNTIME_VERSION"
    and "\<forall>platform\<in>set platforms. populated platform (files s1)"
  shows "\<exists>s2. update_netcore_runtime downloads env2 platforms (s1\<lparr>trace := []\<rparr>) = (Inr (), s2) \<and>
           fetches (trace s2) = [] \<and>
           (\<forall>platform\<in>set platforms. populated platform (files s2))"
proof -
  let ?s = "s1\<lparr>trace := []\<rparr>"
  from assms(3) obtain es v where cache: "walk (files s1) runtime_cache = Inr (Dir es)"
    and stamp: "map_of es ''VERSION'' = Some (File v)"
    by (auto simp: read_as_text_def read_file_def version_file_p
        split: sum.splits node.splits option.splits)
  let ?es = "AList.update ''VERSION'' (File DOTNET_RUNTIME_VERSION) es"
  let ?b = "?s\<lparr>files := graft runtime_cache (Dir ?es) (files ?s)\<rparr>"
  have cache0: "walk (files ?s) runtime_cache = Inr (Dir es)"
    using cache by simp
  have usable: "cache_usable env2 (files ?s)"
    using assms(2) by simp
  have version: "read_as_text env2 version_file_path (files ?s) = Inr version"
    using assms(3) by simp
  have book: "version_bookkeeping env2 ?s = (Inr (), ?b)"
    by (rule bookkeeping_fresh [OF cache0 usable version assms(4)])
  have cacheb: "walk (files ?b) runtime_cache = Inr (Dir ?es)"
    using cache by (simp add: walk_graft_at)
  have kept: "populated platform (files ?b)" if "populated platform (files s1)" for platform
  proof -
    from cache that obtain x xs where full: "map_of es platform = Some (Dir (x # xs))"
      by (rule populated_entry)
    with stamp have "platform \<noteq> ''VERSION''" by auto
    with full cache show ?thesis
      by (simp add: populated_def os_listdir_def walk_p walk_graft_at update_conv')
  qed
  with assms(5) have all: "\<forall>platform\<in>set platforms. populated platform (files ?b)"
    by blast
  from process_platforms_all_skipped [OF cacheb all, of downloads env2] obtain t where
    loop: "process_platforms downloads env2 platforms ?b = (Inr (), ?b\<lparr>trace := trace ?b @ t\<rparr>)"
    and none: "fetches t = []"
    by blast
  show ?thesis
  proof (cases "platforms = []")
    case True
    with book have "update_netcore_runtime downloads env2 platforms ?s =
        (Inr (), ?b\<lparr>trace := [Print NoPlatformsSpecified]\<rparr>)"
      by (simp add: update_netcore_runtime_def io_bind_def emit_def)
    moreover have "fetches (trace (?b\<lparr>trace := [Print NoPlatformsSpecified]\<rparr>)) = []"
      by (simp add: fetches_def)
    moreover have "\<forall>platform\<in>set platforms.
        populated platform (files (?b\<lparr>trace := [Print NoPlatformsSpecified]\<rparr>))"
      using True by simp
    ultimately show ?thesis by blast
  next
    case False
    with book loop have "update_netcore_runtime downloads env2 platforms ?s =
        (Inr (), ?b\<lparr>trace := t @ [Print ProcessComplete]\<rparr>)"
      by (simp add: update_netcore_runtime_def io_bind_def emit_def)
    moreover have "fetches (trace (?b\<lparr>trace := t @ [Print ProcessComplete]\<rparr>)) = []"
      using none by (simp add: fetches_def)
    moreover have "\<forall>platform\<in>set platforms.
        populated platform (files (?b\<lparr>trace := t @ [Print ProcessComplete]\<rparr>))"
      using all by simp
    ultimately show ?thesis by blast
  qed
qed

theorem second_run_fetches_nothing_witness:
  "update_netcore_runtime DOTNET_RUNTIME_DOWNLOADS example_env [''linux'']
     \<lparr>files = Dir [], trace = []\<rparr> =
   (Inr (), \<lparr>files = Dir [(''Dependencies'', Dir [(''dotnet'',
         Dir [(''VERSION'', File ''10.0.0''), (''linux'', Dir [(''dotnet'', File ''elf'')])])])],
      trace = [Print (Downloading ''linux''),
        Urlretrieve
          ''https://builds.dotnet.microsoft.com/dotnet/Runtime/10.0.0/dotnet-runtime-10.0.0-linux-x64.tar.gz''
          [''Dependencies'', ''dotnet'', ''linux'', ''download.tmp''],
        TarExtractall [''Dependencies'', ''dotnet'', ''linux'', ''download.tmp'']
          [''Dependencies'', ''dotnet'', ''linux''],
        Print ExtractedTarGz, Print (DownloadComplete ''linux''), Print ProcessComplete]\<rparr>) \<and>
   update_netcore_runtime DOTNET_RUNTIME_DOWNLOADS offline_env [''linux'']
     \<lparr>files = Dir [(''Dependencies'', Dir [(''dotnet'',
         Dir [(''VERSION'', File ''10.0.0''), (''linux'', Dir [(''dotnet'', File ''elf'')])])])],
      trace = []\<rparr> =
   (Inr (), \<lparr>files = Dir [(''Dependencies'', Dir [(''dotnet'',
         Dir [(''VERSION'', File ''10.0.0''), (''linux'', Dir [(''dotnet'', File ''elf'')])])])],
      trace = [Print (SkippingDownload ''linux'' 1), Print ProcessComplete]\<rparr>) \<and>
   fetches [Print (SkippingDownload ''linux'' 1), Print ProcessComplete] = []"
proof -
  let ?s1 = "\<lparr>files = Dir [(''Dependencies'', Dir [(''dotnet'',
         Dir [(''VERSION'', File ''10.0.0''), (''linux'', Dir [(''dotnet'', File ''elf'')])])])],
      trace = [Print (Downloading ''linux''),
        Urlretrieve
          ''https://builds.dotnet.microsoft.com/dotnet/Runtime/10.0.0/dotnet-runtime-10.0.0-linux-x64.tar.gz''
          [''Dependencies'', ''dotnet'', ''linux'', ''download.tmp''],
        TarExtractall [''Dependencies'', ''dotnet'', ''linux'', ''download.tmp'']
          [''Dependencies'', ''dotnet'', ''linux''],
        Print ExtractedTarGz, Print (DownloadComplete ''linux''), Print ProcessComplete]\<rparr>"
  have first: "update_netcore_runtime DOTNET_RUNTIME_DOWNLOADS example_env [''linux'']
     \<lparr>files = Dir [], trace = []\<rparr> = (Inr (), ?s1)"
    by (simp add: run_defs example_defs linux_url_tar_gz archive_is_no_page)
  have usable: "cache_usable offline_env (files ?s1)"
    by (simp add: cache_usable_def read_as_text_def read_file_def example_defs offline_env_def)
  have stamp: "read_as_text offline_env version_file_path (files ?s1) = Inr (text_of ''10.0.0'')"
    by (simp add: read_as_text_def read_file_def example_defs offline_env_def)
  have same: "strip (text_of ''10.0.0'') = text_of DOTNET_RUNTIME_VERSION"
    by (simp add: strip_def isspace_def example_defs)
  have full: "\<forall>platform\<in>set [''linux'']. populated platform (files ?s1)"
    by (simp add: populated_def os_listdir_def example_defs)
  have second: "update_netcore_runtime DOTNET_RUNTIME_DOWNLOADS offline_env [''linux'']
      (?s1\<lparr>trace := []\<rparr>) =
    (Inr (), \<lparr>files = Dir [(''Dependencies'', Dir [(''dotnet'',
         Dir [(''VERSION'', File ''10.0.0''), (''linux'', Dir [(''dotnet'', File ''elf'')])])])],
      trace = [Print (SkippingDownload ''linux'' 1), Print ProcessComplete]\<rparr>)"
    by (simp add: run_defs example_defs offline_env_def strip_def isspace_def)
  from second_run_fetches_nothing [OF first usable stamp same full] first second
  show ?thesis by auto
qed

subsection \<open>A stale cache\<close>



subsection \<open>Unknown platforms\<close>

text \<open>
  C1. The claim: a platform with no entry in the table of downloads fails alone, and the
  platforms after it are still processed. The script looks the platform up at line 100,
  before the \<^verbatim>\<open>try\<close> of line 102: on an empty working directory and the platforms
  \<^verbatim>\<open>bogus\<close>, \<^verbatim>\<open>linux\<close>, whatever the network and the archives do, the directory of
  \<^verbatim>\<open>bogus\<close> is made and left empty, the \<^verbatim>\<open>KeyError\<close> leaves \<^verbatim>\<open>update_netcore_runtime\<close>,
  and \<^verbatim>\<open>linux\<close> is never reached: nothing is fetched and its directory is not made.
\<close>

theorem unknown_platform_aborts_run:
  "update_netcore_runtime DOTNET_RUNTIME_DOWNLOADS env [''bogus'', ''linux'']
     \<lparr>files = Dir [], trace = []\<rparr> =
   (Inl KeyError,
    \<lparr>files = Dir [(''Dependencies'', Dir [(''dotnet'',
        Dir [(''VERSION'', File ''10.0.0''), (''bogus'', Dir [])])])],
     trace = [Print (Downloading ''bogus'')]\<rparr>)"
  by (simp add: update_netcore_runtime_def version_bookkeeping_def read_current_version_def
      read_as_text_def print_current_version_def
      process_platform_def download_platform_runtime_def io_defs fs_defs
      DOTNET_RUNTIME_DOWNLOADS_def DOTNET_RUNTIME_VERSION_def PLATFORM_LINUX_def
      PLATFORM_WINDOWS_def PLATFORM_MACOS_def runtime_cache_def version_file_path_def p_def
      Let_def)

end
